theory Spec2Isabelle
  imports Complex_Main "HOL-Library.Log_Nat"
begin

section \<open>SnipScreen editor: data model\<close>

text \<open>
  The editor is one object of class \<open>ScreenshotEditor\<close> whose methods are mixed in from
  the modules \<open>editor-tools.js\<close>, \<open>editor-canvas.js\<close>, \<open>editor-events.js\<close>,
  \<open>editor-init.js\<close> and \<open>editor-utils.js\<close>.  The embedding passes the object
  explicitly: every method takes the editor record and returns the updated one.

  JavaScript numbers are binary64 floating-point values.  A number is modelled by the
  real it denotes.  In \<open>completeCrop\<close>, where whole pixels are decided by rounding
  products and quotients of image sizes, the result of every division, multiplication,
  subtraction and addition is rounded to binary64 by \<open>fl64\<close> (to nearest, ties to even);
  minima, maxima, absolute values and comparisons are exact on binary64 values.  Overflow
  to infinity and NaN are not represented: the numbers are pixel counts and pixel
  coordinates.  The other methods are modelled with exact real arithmetic.
  \<open>Math.round v\<close> is \<open>\<lfloor>v + 1/2\<rfloor>\<close> (round half up), which is exact on every binary64
  value.  Canvas bitmap dimensions are natural numbers, as the DOM attribute is an
  unsigned integer.  Toasts, the spinner, CSS classes, cursors, CSS
  transforms, animations and console output influence no modelled field and are left out.
  The 2D context \<open>ctx\<close> is obtained together with \<open>canvas\<close> in the constructor and
  nulled together with it in \<open>cleanup\<close>, so one optional field stands for both; the same
  holds for \<open>offscreenCtx\<close> and \<open>offscreenCanvas\<close>.
\<close>

definition Math_round :: "real \<Rightarrow> int" where
  "Math_round v = \<lfloor>v + 1 / 2\<rfloor>"

subsection \<open>Binary64 rounding\<close>

text \<open>
  \<open>expo x\<close> is the binary exponent of a non-zero \<open>x\<close>: \<open>2 powi expo x \<le> \<bar>x\<bar> < 2 powi (expo x + 1)\<close>.
  A binary64 value with exponent \<open>e\<close> is a whole multiple of \<open>2 powi (e - 52)\<close>
  (53-bit significand); below the smallest normal exponent \<open>-1022\<close> the spacing stays
  \<open>2 powi (-1074)\<close>.  \<open>fl64 x\<close> is the binary64 value nearest to \<open>x\<close>, the even
  significand winning a tie.
\<close>

definition expo :: "real \<Rightarrow> int" where
  "expo x =
     (if 1 \<le> \<bar>x\<bar> then int (floorlog 2 (nat \<lfloor>\<bar>x\<bar>\<rfloor>)) - 1
      else - int (ceillog2 (nat \<lceil>1 / \<bar>x\<bar>\<rceil>)))"

definition roundTiesToEven :: "real \<Rightarrow> int" where
  "roundTiesToEven y =
     (let f = \<lfloor>y\<rfloor>; d = y - of_int f
      in if d < 1 / 2 then f else if 1 / 2 < d then f + 1 else if even f then f else f + 1)"

definition fl64 :: "real \<Rightarrow> real" where
  "fl64 x =
     (if x = 0 then 0
      else let u = 2 powi (max (expo x) (- 1022) - 52)
           in of_int (roundTiesToEven (x / u)) * u)"

datatype tool = Crop | Annotate | Text | Arrow

record point =
  pt_x :: real
  pt_y :: real

record element =
  el_type :: string
  el_id :: string
  el_x :: real
  el_y :: real
  el_width :: real
  el_height :: real
  el_color :: string

subsection \<open>Pixels and bitmaps\<close>

text \<open>
  A colour has four channels in \<open>[0, 1]\<close>, not premultiplied.  \<open>over\<close> is the canvas
  default compositing operator (source-over).  A bitmap is a pixel buffer with integer
  dimensions; it stands for the offscreen canvas and for the export canvas, on which the
  code only draws at integer coordinates.
\<close>

record rgba =
  ch_r :: real
  ch_g :: real
  ch_b :: real
  ch_a :: real

definition over :: "rgba \<Rightarrow> rgba \<Rightarrow> rgba" where
  "over s b =
     (let ao = ch_a s + ch_a b * (1 - ch_a s);
          mix = (\<lambda>cs cb. if ao = 0 then 0 else (cs * ch_a s + cb * ch_a b * (1 - ch_a s)) / ao)
      in \<lparr>ch_r = mix (ch_r s) (ch_r b), ch_g = mix (ch_g s) (ch_g b),
          ch_b = mix (ch_b s) (ch_b b), ch_a = ao\<rparr>)"

definition white :: rgba where
  "white = \<lparr>ch_r = 1, ch_g = 1, ch_b = 1, ch_a = 1\<rparr>"

definition black :: rgba where
  "black = \<lparr>ch_r = 0, ch_g = 0, ch_b = 0, ch_a = 1\<rparr>"

definition transparent :: rgba where
  "transparent = \<lparr>ch_r = 0, ch_g = 0, ch_b = 0, ch_a = 0\<rparr>"

record bitmap =
  bm_width :: nat
  bm_height :: nat
  bm_px :: "nat \<Rightarrow> nat \<Rightarrow> rgba"

text \<open>A canvas whose size has just been set shows its backdrop everywhere.\<close>

definition blank :: "rgba \<Rightarrow> nat \<Rightarrow> nat \<Rightarrow> bitmap" where
  "blank backdrop w h = \<lparr>bm_width = w, bm_height = h, bm_px = (\<lambda>i j. backdrop)\<rparr>"

text \<open>
  \<open>fillRect\<close> with integer arguments: the rectangle spans from \<open>x\<close> to \<open>x + w\<close>
  whichever is smaller first (a negative extent draws to the left or upward), and is
  clipped to the canvas.
\<close>

definition fillRect :: "rgba \<Rightarrow> int \<Rightarrow> int \<Rightarrow> int \<Rightarrow> int \<Rightarrow> bitmap \<Rightarrow> bitmap" where
  "fillRect col x y w h b =
     b\<lparr>bm_px := (\<lambda>i j.
          if i < bm_width b \<and> j < bm_height b
             \<and> min x (x + w) \<le> int i \<and> int i < max x (x + w)
             \<and> min y (y + h) \<le> int j \<and> int j < max y (y + h)
          then over col (bm_px b i j) else bm_px b i j)\<rparr>"

text \<open>\<open>drawImage(src, 0, 0)\<close>: the source canvas is painted at the origin, unscaled.\<close>

definition drawCanvasAtOrigin :: "bitmap \<Rightarrow> bitmap \<Rightarrow> bitmap" where
  "drawCanvasAtOrigin src b =
     b\<lparr>bm_px := (\<lambda>i j.
          if i < bm_width b \<and> j < bm_height b \<and> i < bm_width src \<and> j < bm_height src
          then over (bm_px src i j) (bm_px b i j) else bm_px b i j)\<rparr>"

text \<open>
  The loaded screenshot.  \<open>drawImage\<close> raises \<open>InvalidStateError\<close> on an image element
  whose request is in the broken state; that is the draw failure of the crop pipeline.
\<close>

record image =
  naturalWidth :: nat
  naturalHeight :: nat
  img_px :: "nat \<Rightarrow> nat \<Rightarrow> rgba"
  img_broken :: bool

text \<open>
  \<open>drawImage(img, sx, sy, sw, sh, 0, 0, sw, sh)\<close> on a canvas of size \<open>sw \<times> sh\<close> that
  has just been cleared: a 1:1 copy of the source rectangle, clipped to the image.  The
  offscreen context is created with \<open>alpha: false\<close>, so its backdrop is opaque black.
\<close>

definition drawImageRegion :: "image \<Rightarrow> int \<Rightarrow> int \<Rightarrow> int \<Rightarrow> int \<Rightarrow> bitmap" where
  "drawImageRegion img sx sy sw sh =
     \<lparr>bm_width = nat sw, bm_height = nat sh,
      bm_px = (\<lambda>i j.
          if int i < sw \<and> int j < sh
             \<and> nat sx + i < naturalWidth img \<and> nat sy + j < naturalHeight img
          then over (img_px img (nat sx + i) (nat sy + j)) black else black)\<rparr>"

subsection \<open>The visible canvas\<close>

text \<open>
  The visible canvas is drawn at fractional coordinates (previews, guides), where the
  rasteriser is the browser's.  Its content is therefore kept as the sequence of drawing
  calls issued since it was last cleared; the pixels are a function of that sequence.
  \<open>getImageData\<close> of the whole canvas captures the sequence, \<open>putImageData\<close> of a
  capture of the same size replaces it.
\<close>

datatype draw_cmd =
    DrawImage bitmap
  | FillRect string real real real real
  | StrokeRect string "nat list" nat real real real real
  | PutImageData nat nat "draw_cmd list"

record canvas =
  cv_width :: nat
  cv_height :: nat
  cv_content :: "draw_cmd list"

record image_data =
  id_width :: nat
  id_height :: nat
  id_content :: "draw_cmd list"

record dom_rect =
  r_left :: real
  r_top :: real
  r_width :: real
  r_height :: real

record mouse_event =
  clientX :: real
  clientY :: real
  button :: nat

subsection \<open>The editor object\<close>

text \<open>
  Besides the fields of the class, the record holds what the methods read from their
  environment: \<open>toolShown t\<close> says that the toolbar element of tool \<open>t\<close> exists and is
  not hidden, \<open>layoutRect\<close> is what \<open>getBoundingClientRect\<close> returns for the canvas,
  \<open>inThrottle\<close> and \<open>timeoutId\<close> are the closure variables of the throttled guide
  drawing, and \<open>pendingFrames\<close> are the callbacks registered with
  \<open>requestAnimationFrame\<close> (each closes over one pointer position).
\<close>

record editor =
  canvas :: "canvas option"
  offscreenCanvas :: "bitmap option"
  activeTools :: "tool set"
  isDrawing :: bool
  cropStart :: "point option"
  cropEnd :: "point option"
  annotateStart :: "point option"
  originalImage :: "image option"
  lastImageData :: "image_data option"
  annotationElements :: "element list"
  canvasRect :: "dom_rect option"
  toolShown :: "tool \<Rightarrow> bool"
  layoutRect :: dom_rect
  inThrottle :: bool
  timeoutId :: bool
  pendingFrames :: "point list"

section \<open>Class methods (editor.js)\<close>

definition isToolActive :: "tool \<Rightarrow> editor \<Rightarrow> bool" where
  "isToolActive toolName st = (toolName \<in> activeTools st)"

definition setToolActive :: "tool \<Rightarrow> bool \<Rightarrow> editor \<Rightarrow> editor" where
  "setToolActive toolName active st =
     (if active then st\<lparr>activeTools := insert toolName (activeTools st)\<rparr>
      else st\<lparr>activeTools := activeTools st - {toolName}\<rparr>)"

definition elementFill :: "element \<Rightarrow> draw_cmd" where
  "elementFill e = FillRect (el_color e) (el_x e) (el_y e) (el_width e) (el_height e)"

text \<open>
  \<open>redrawCanvas\<close> clears the visible canvas, paints the offscreen canvas and then the
  rectangles.  Painting a canvas of zero size raises in the browser; the constructor,
  load and crop give the offscreen canvas a non-zero size, and the model does not
  represent that exception.
\<close>

definition redrawCanvas :: "editor \<Rightarrow> editor" where
  "redrawCanvas st =
     (case (canvas st, offscreenCanvas st) of
        (Some c, Some off) \<Rightarrow>
          st\<lparr>canvas := Some (c\<lparr>cv_content :=
                DrawImage off
                # map elementFill (filter (\<lambda>e. el_type e = ''rect'') (annotationElements st))\<rparr>)\<rparr>
      | _ \<Rightarrow> st)"

text \<open>\<open>getImageData\<close> raises on an empty rectangle; the snapshot is then \<open>null\<close>.\<close>

definition saveCanvasState :: "editor \<Rightarrow> editor" where
  "saveCanvasState st =
     (case canvas st of
        Some c \<Rightarrow>
          if cv_width c = 0 \<or> cv_height c = 0 then st\<lparr>lastImageData := None\<rparr>
          else st\<lparr>lastImageData :=
                 Some \<lparr>id_width = cv_width c, id_height = cv_height c, id_content = cv_content c\<rparr>\<rparr>
      | None \<Rightarrow> st)"

definition putImageData :: "image_data \<Rightarrow> canvas \<Rightarrow> canvas" where
  "putImageData d c =
     (if id_width d = cv_width c \<and> id_height d = cv_height c
      then c\<lparr>cv_content := id_content d\<rparr>
      else c\<lparr>cv_content := cv_content c @ [PutImageData (id_width d) (id_height d) (id_content d)]\<rparr>)"

definition restoreCanvasState :: "editor \<Rightarrow> editor" where
  "restoreCanvasState st =
     (case (lastImageData st, canvas st) of
        (Some d, Some c) \<Rightarrow> st\<lparr>canvas := Some (putImageData d c)\<rparr>
      | _ \<Rightarrow> redrawCanvas st)"

section \<open>Pointer events (editor-events.js, editor-init.js, editor-utils.js)\<close>

definition updateCanvasRect :: "editor \<Rightarrow> editor" where
  "updateCanvasRect st =
     (case canvas st of
        Some c \<Rightarrow> st\<lparr>canvasRect := Some (layoutRect st)\<rparr>
      | None \<Rightarrow> st)"

text \<open>
  \<open>getMousePos\<close> returns the position and the editor (the rectangle cache may have been
  filled).  The position is \<open>None\<close> where the JavaScript raises a \<open>TypeError\<close>: a cached
  rectangle exists but \<open>this.canvas\<close> is \<open>null\<close>.
\<close>

definition getMousePos :: "mouse_event \<Rightarrow> editor \<Rightarrow> point option \<times> editor" where
  "getMousePos e st =
     (let st1 = (if canvasRect st = None then updateCanvasRect st else st) in
      case canvasRect st1 of
        None \<Rightarrow> (Some \<lparr>pt_x = 0, pt_y = 0\<rparr>, st1)
      | Some rect \<Rightarrow>
          (case canvas st1 of
             None \<Rightarrow> (None, st1)
           | Some c \<Rightarrow>
               let scaleX = (if r_width rect = 0 then 1 else of_nat (cv_width c) / r_width rect);
                   scaleY = (if r_height rect = 0 then 1 else of_nat (cv_height c) / r_height rect);
                   canvasX = (clientX e - r_left rect) * scaleX;
                   canvasY = (clientY e - r_top rect) * scaleY;
                   clampedX = max 0 (min canvasX (of_nat (cv_width c)));
                   clampedY = max 0 (min canvasY (of_nat (cv_height c)))
               in (Some \<lparr>pt_x = clampedX, pt_y = clampedY\<rparr>, st1)))"

text \<open>Drawing calls on the visible canvas are appended to its content.\<close>

definition draw :: "draw_cmd list \<Rightarrow> editor \<Rightarrow> editor" where
  "draw cmds st =
     (case canvas st of
        Some c \<Rightarrow> st\<lparr>canvas := Some (c\<lparr>cv_content := cv_content c @ cmds\<rparr>)\<rparr>
      | None \<Rightarrow> st)"

definition drawCornerHandles :: "real \<Rightarrow> real \<Rightarrow> real \<Rightarrow> real \<Rightarrow> draw_cmd list" where
  "drawCornerHandles x y width height =
     (let handleSize = 8; handleOffset = handleSize / 2;
          corners = [(x, y), (x + width, y), (x, y + height), (x + width, y + height)]
      in concat (map (\<lambda>(cx, cy).
           [FillRect ''#007AFF'' (cx - handleOffset) (cy - handleOffset) handleSize handleSize,
            StrokeRect ''#FFFFFF'' [] 1 (cx - handleOffset) (cy - handleOffset) handleSize handleSize])
           corners))"

definition guideCmds :: "real \<Rightarrow> real \<Rightarrow> real \<Rightarrow> real \<Rightarrow> real \<Rightarrow> real \<Rightarrow> draw_cmd list" where
  "guideCmds canvasWidth canvasHeight x y width height =
     [FillRect ''rgba(0, 0, 0, 0.4)'' 0 0 canvasWidth y,
      FillRect ''rgba(0, 0, 0, 0.4)'' 0 (y + height) canvasWidth (canvasHeight - (y + height)),
      FillRect ''rgba(0, 0, 0, 0.4)'' 0 y x height,
      FillRect ''rgba(0, 0, 0, 0.4)'' (x + width) y (canvasWidth - (x + width)) height,
      StrokeRect ''#FFFFFF'' [4, 4] 1 x y width height,
      StrokeRect ''#007AFF'' [] 2 (x - 1) (y - 1) (width + 2) (height + 2)]
     @ (if width > 10 \<and> height > 10 then drawCornerHandles x y width height else [])"

definition drawCropGuides :: "real \<Rightarrow> real \<Rightarrow> real \<Rightarrow> real \<Rightarrow> editor \<Rightarrow> editor" where
  "drawCropGuides x0 y0 width0 height0 st =
     (case canvas st of
        None \<Rightarrow> st
      | Some c \<Rightarrow>
          let canvasWidth = of_nat (cv_width c); canvasHeight = of_nat (cv_height c);
              x = max 0 (min x0 canvasWidth);
              y = max 0 (min y0 canvasHeight);
              width = max 0 (min width0 (canvasWidth - x));
              height = max 0 (min height0 (canvasHeight - y))
          in draw (guideCmds canvasWidth canvasHeight x y width height) (redrawCanvas st))"

text \<open>
  \<open>throttle(func, limit)\<close>: a call runs \<open>func\<close> only when the flag \<open>inThrottle\<close> is
  clear, then sets the flag and arms a timer; a call that finds the flag set does nothing.
  The timer callback, \<open>throttleTimeout\<close>, clears the flag; it runs \<open>limit\<close> milliseconds
  later at the earliest, which the model leaves to the order of events.  The throttled
  function returns nothing, so \<open>lastResult\<close> is not kept.
\<close>

definition throttle :: "('a \<Rightarrow> editor \<Rightarrow> editor) \<Rightarrow> 'a \<Rightarrow> editor \<Rightarrow> editor" where
  "throttle func args st =
     (if \<not> inThrottle st then (func args st)\<lparr>inThrottle := True, timeoutId := True\<rparr>
      else st)"

definition throttleTimeout :: "editor \<Rightarrow> editor" where
  "throttleTimeout st =
     (if timeoutId st then st\<lparr>inThrottle := False, timeoutId := False\<rparr> else st)"

definition cropGuidesBody :: "point \<times> point \<Rightarrow> editor \<Rightarrow> editor" where
  "cropGuidesBody = (\<lambda>(startPos, endPos) st.
     if \<not> isDrawing st \<or> cropStart st = None \<or> \<not> isToolActive Crop st then st
     else
       let startX = min (pt_x startPos) (pt_x endPos);
           startY = min (pt_y startPos) (pt_y endPos);
           width = \<bar>pt_x endPos - pt_x startPos\<bar>;
           height = \<bar>pt_y endPos - pt_y startPos\<bar>
       in drawCropGuides startX startY width height st)"

definition throttledDrawCropGuides :: "point \<Rightarrow> point \<Rightarrow> editor \<Rightarrow> editor" where
  "throttledDrawCropGuides startPos endPos = throttle cropGuidesBody (startPos, endPos)"

definition handleMouseDown :: "mouse_event \<Rightarrow> editor \<Rightarrow> editor" where
  "handleMouseDown e st =
     (if button e \<noteq> 0 then st
      else case getMousePos e st of
        (None, st1) \<Rightarrow> st1
      | (Some pos, st1) \<Rightarrow>
          let st2 = st1\<lparr>isDrawing := False\<rparr> in
          if isToolActive Crop st2
          then st2\<lparr>isDrawing := True, cropStart := Some pos, cropEnd := Some pos\<rparr>
          else if isToolActive Annotate st2
          then saveCanvasState (st2\<lparr>isDrawing := True, annotateStart := Some pos\<rparr>)
          else st2\<lparr>isDrawing := False\<rparr>)"

definition handleMouseMove :: "mouse_event \<Rightarrow> editor \<Rightarrow> editor" where
  "handleMouseMove e st =
     (case getMousePos e st of
        (None, st1) \<Rightarrow> st1
      | (Some pos, st1) \<Rightarrow>
          if \<not> isDrawing st1 then st1
          else (case (isToolActive Crop st1, cropStart st1) of
                  (True, Some cs) \<Rightarrow> throttledDrawCropGuides cs pos (st1\<lparr>cropEnd := Some pos\<rparr>)
                | _ \<Rightarrow>
                    if isToolActive Annotate st1 \<and> annotateStart st1 \<noteq> None
                    then st1\<lparr>pendingFrames := pendingFrames st1 @ [pos]\<rparr>
                    else st1))"

text \<open>The frame callback registered by an annotate move: it redraws the preview.\<close>

definition animationFrame :: "editor \<Rightarrow> editor" where
  "animationFrame st =
     (case pendingFrames st of
        [] \<Rightarrow> st
      | pos # rest \<Rightarrow>
          let st1 = st\<lparr>pendingFrames := rest\<rparr> in
          (case annotateStart st1 of
             None \<Rightarrow> st1
           | Some a \<Rightarrow>
               if \<not> isDrawing st1 \<or> \<not> isToolActive Annotate st1 then st1
               else
                 let st2 = restoreCanvasState st1;
                     startX = min (pt_x a) (pt_x pos);
                     startY = min (pt_y a) (pt_y pos);
                     width = \<bar>pt_x pos - pt_x a\<bar>;
                     height = \<bar>pt_y pos - pt_y a\<bar>
                 in if width > 0 \<and> height > 0
                    then draw [FillRect ''#000000'' startX startY width height] st2
                    else st2))"

section \<open>Tools (editor-tools.js)\<close>

definition drawingTools :: "tool list" where
  "drawingTools = [Crop, Annotate]"

definition toggleTool :: "tool \<Rightarrow> editor \<Rightarrow> editor" where
  "toggleTool t st =
     (if \<not> toolShown st t then st
      else if isToolActive t st then
        (let st1 = setToolActive t False st in
         if t = Crop then redrawCanvas st1 else st1)
      else
        (let otherDrawingTools = filter (\<lambda>u. u \<noteq> t) drawingTools;
             st1 = fold (\<lambda>otherTool s.
                      if isToolActive otherTool s then setToolActive otherTool False s else s)
                    otherDrawingTools st
         in setToolActive t True st1))"

definition resetCropState :: "editor \<Rightarrow> editor" where
  "resetCropState st =
     (let st1 = st\<lparr>cropStart := None, cropEnd := None\<rparr> in
      case canvas st1 of
        Some c \<Rightarrow> redrawCanvas st1
      | None \<Rightarrow> st1)"

subsection \<open>Crop geometry\<close>

text \<open>
  \<open>completeCrop\<close> computes every quantity twice, once per axis, by the same expression.
  The functions below take the two selection coordinates of one axis and the canvas and
  image sizes along that axis; \<open>clampedStart\<close> is \<open>clampedStartX\<close> or \<open>clampedStartY\<close>,
  \<open>clampedExtent\<close> is \<open>clampedWidth\<close> or \<open>clampedHeight\<close>, and so on.  Every
  difference, quotient and product of numbers that need not be whole is rounded by
  \<open>fl64\<close>.  \<open>naturalWidth - clampedSourceX\<close> is a difference of two whole numbers
  within the image size, which binary64 represents exactly; it is written on \<open>int\<close>.
\<close>

definition displayCropExtent :: "real \<Rightarrow> real \<Rightarrow> int" where
  "displayCropExtent a b = max 1 (Math_round \<bar>fl64 (b - a)\<bar>)"

definition clampedStart :: "real \<Rightarrow> real \<Rightarrow> nat \<Rightarrow> real" where
  "clampedStart a b cur = max 0 (min (min a b) (of_nat cur))"

definition clampedExtent :: "real \<Rightarrow> real \<Rightarrow> nat \<Rightarrow> real" where
  "clampedExtent a b cur =
     max 1 (min (of_int (displayCropExtent a b)) (fl64 (of_nat cur - clampedStart a b cur)))"

definition scaleOf :: "nat \<Rightarrow> nat \<Rightarrow> real" where
  "scaleOf natural cur = fl64 (of_nat natural / of_nat cur)"

definition sourceStart :: "real \<Rightarrow> real \<Rightarrow> nat \<Rightarrow> nat \<Rightarrow> int" where
  "sourceStart a b cur natural = Math_round (fl64 (clampedStart a b cur * scaleOf natural cur))"

definition sourceExtent :: "real \<Rightarrow> real \<Rightarrow> nat \<Rightarrow> nat \<Rightarrow> int" where
  "sourceExtent a b cur natural = Math_round (fl64 (clampedExtent a b cur * scaleOf natural cur))"

definition clampedSourceStart :: "real \<Rightarrow> real \<Rightarrow> nat \<Rightarrow> nat \<Rightarrow> int" where
  "clampedSourceStart a b cur natural = max 0 (min (sourceStart a b cur natural) (int natural))"

definition clampedSourceExtent :: "real \<Rightarrow> real \<Rightarrow> nat \<Rightarrow> nat \<Rightarrow> int" where
  "clampedSourceExtent a b cur natural =
     max 1 (min (sourceExtent a b cur natural) (int natural - clampedSourceStart a b cur natural))"

text \<open>The \<open>map\<close> and the \<open>filter\<close> callbacks applied to the annotation elements.\<close>

definition adjustElement :: "real \<Rightarrow> real \<Rightarrow> int \<Rightarrow> int \<Rightarrow> element \<Rightarrow> element" where
  "adjustElement scaleX scaleY clampedSourceX clampedSourceY e =
     (let originalElementX = fl64 (el_x e * scaleX);
          originalElementY = fl64 (el_y e * scaleY);
          originalElementWidth = fl64 (el_width e * scaleX);
          originalElementHeight = fl64 (el_height e * scaleY);
          newX = fl64 (originalElementX - of_int clampedSourceX);
          newY = fl64 (originalElementY - of_int clampedSourceY);
          newWidth = originalElementWidth;
          newHeight = originalElementHeight
      in e\<lparr>el_x := of_int (Math_round newX), el_y := of_int (Math_round newY),
           el_width := of_int (Math_round newWidth), el_height := of_int (Math_round newHeight)\<rparr>)"

definition keepElement :: "int \<Rightarrow> int \<Rightarrow> element \<Rightarrow> bool" where
  "keepElement newCanvasWidth newCanvasHeight e =
     (let elementRight = fl64 (el_x e + el_width e);
          elementBottom = fl64 (el_y e + el_height e)
      in elementRight > 0 \<and> elementBottom > 0
         \<and> el_x e < of_int newCanvasWidth \<and> el_y e < of_int newCanvasHeight)"

subsection \<open>completeCrop\<close>

datatype crop_outcome =
  PrerequisitesNotMet | InvalidDimensions | CropTooSmall | CropFailed | CropCompleted

text \<open>
  The body of the \<open>try\<close> block.  \<open>Inl\<close> is the editor at the point where an exception is
  raised, \<open>Inr\<close> the editor at the end of the block.  Assigning a canvas dimension clears
  the canvas.
\<close>

definition cropTry :: "point \<Rightarrow> point \<Rightarrow> image \<Rightarrow> bitmap \<Rightarrow> editor \<Rightarrow> editor + editor" where
  "cropTry cs ce img off st =
     (let currentDisplayWidth = bm_width off; currentDisplayHeight = bm_height off;
          scaleX = scaleOf (naturalWidth img) currentDisplayWidth;
          scaleY = scaleOf (naturalHeight img) currentDisplayHeight;
          clampedSourceX = clampedSourceStart (pt_x cs) (pt_x ce) currentDisplayWidth (naturalWidth img);
          clampedSourceY = clampedSourceStart (pt_y cs) (pt_y ce) currentDisplayHeight (naturalHeight img);
          clampedSourceWidth = clampedSourceExtent (pt_x cs) (pt_x ce) currentDisplayWidth (naturalWidth img);
          clampedSourceHeight = clampedSourceExtent (pt_y cs) (pt_y ce) currentDisplayHeight (naturalHeight img);
          newCanvasWidth = clampedSourceWidth;
          newCanvasHeight = clampedSourceHeight
      in case canvas st of
           None \<Rightarrow> Inl st
         | Some c \<Rightarrow>
             let st1 = st\<lparr>canvas := Some (c\<lparr>cv_width := nat newCanvasWidth,
                                              cv_height := nat newCanvasHeight,
                                              cv_content := []\<rparr>),
                          offscreenCanvas := Some (blank black (nat newCanvasWidth) (nat newCanvasHeight))\<rparr>
             in if img_broken img then Inl st1
                else
                  let st2 = st1\<lparr>offscreenCanvas := Some (drawImageRegion img clampedSourceX clampedSourceY
                                                            clampedSourceWidth clampedSourceHeight)\<rparr>;
                      st3 = st2\<lparr>annotationElements :=
                                 filter (keepElement newCanvasWidth newCanvasHeight)
                                   (map (adjustElement scaleX scaleY clampedSourceX clampedSourceY)
                                      (annotationElements st2))\<rparr>;
                      st4 = redrawCanvas (updateCanvasRect st3)
                  in Inr (setToolActive Crop False st4))"

definition completeCrop :: "editor \<Rightarrow> crop_outcome \<times> editor" where
  "completeCrop st =
     (case (cropStart st, cropEnd st, originalImage st, offscreenCanvas st) of
        (Some cs, Some ce, Some img, Some off) \<Rightarrow>
          if \<not> isToolActive Crop st then (PrerequisitesNotMet, resetCropState st)
          else if bm_width off = 0 \<or> bm_height off = 0 then (InvalidDimensions, resetCropState st)
          else if clampedExtent (pt_x cs) (pt_x ce) (bm_width off) \<le> 1
                  \<or> clampedExtent (pt_y cs) (pt_y ce) (bm_height off) \<le> 1
          then (CropTooSmall, resetCropState st)
          else (case cropTry cs ce img off st of
                  Inr st' \<Rightarrow> (CropCompleted, resetCropState st')
                | Inl st' \<Rightarrow> (CropFailed, resetCropState (redrawCanvas st')))
      | _ \<Rightarrow> (PrerequisitesNotMet, resetCropState st))"

subsection \<open>Pointer release\<close>

text \<open>\<open>Date.now()\<close> is the argument \<open>now\<close>; the identifier is its decimal rendering.\<close>

fun digits :: "nat \<Rightarrow> string" where
  "digits n = (if n < 10 then [char_of (48 + n)] else digits (n div 10) @ [char_of (48 + n mod 10)])"

definition annotationId :: "nat \<Rightarrow> string" where
  "annotationId now = ''anno-'' @ digits now"

definition handleMouseUp :: "nat \<Rightarrow> mouse_event \<Rightarrow> editor \<Rightarrow> editor" where
  "handleMouseUp now e st =
     (if button e \<noteq> 0 then st
      else if \<not> isDrawing st then st
      else case getMousePos e st of
        (None, st1) \<Rightarrow> st1
      | (Some pos, st1) \<Rightarrow>
          let st2 = st1\<lparr>isDrawing := False\<rparr> in
          if isToolActive Crop st2 \<and> cropStart st2 \<noteq> None
          then snd (completeCrop (st2\<lparr>cropEnd := Some pos\<rparr>))
          else (case annotateStart st2 of
                  None \<Rightarrow> st2
                | Some a \<Rightarrow>
                    if \<not> isToolActive Annotate st2 then st2
                    else
                      let startX = min (pt_x a) (pt_x pos);
                          startY = min (pt_y a) (pt_y pos);
                          width = \<bar>pt_x pos - pt_x a\<bar>;
                          height = \<bar>pt_y pos - pt_y a\<bar>;
                          st3 = (if width > 1 \<and> height > 1
                                 then
                                   let newAnnotation =
                                         \<lparr>el_type = ''rect'', el_id = annotationId now,
                                          el_x = startX, el_y = startY,
                                          el_width = width, el_height = height,
                                          el_color = ''#000000''\<rparr>
                                   in redrawCanvas (st2\<lparr>annotationElements :=
                                                          annotationElements st2 @ [newAnnotation]\<rparr>)
                                 else restoreCanvasState st2)
                      in st3\<lparr>annotateStart := None\<rparr>))"

section \<open>Export (editor-canvas.js, editor-tools.js)\<close>

text \<open>
  The export canvas is created with an alpha channel, so its backdrop is transparent.
\<close>

definition prepareFinalCanvas :: "editor \<Rightarrow> bitmap" where
  "prepareFinalCanvas st =
     (case offscreenCanvas st of
        None \<Rightarrow> blank transparent 1 1
      | Some off \<Rightarrow>
          if bm_width off = 0 \<or> bm_height off = 0 then blank transparent 1 1
          else
            let sourceWidth = bm_width off; sourceHeight = bm_height off;
                c0 = blank transparent sourceWidth sourceHeight;
                c1 = fillRect white 0 0 (int sourceWidth) (int sourceHeight) c0;
                c2 = drawCanvasAtOrigin off c1
            in fold (\<lambda>e c. if el_type e = ''rect''
                            then fillRect black (Math_round (el_x e)) (Math_round (el_y e))
                                   (Math_round (el_width e)) (Math_round (el_height e)) c
                            else c)
                 (annotationElements st) c2)"

text \<open>
  \<open>copyToClipboard\<close> and \<open>saveImage\<close> up to the point where the composed canvas is
  handed to the encoder; encoding, the clipboard and the download are outside the editor.
  \<open>clipboardSupported\<close> is the outcome of the feature test in \<open>copyToClipboard\<close>.
\<close>

datatype export_outcome =
  CannotExportEmpty | FinalizeCropFirst | ClipboardUnsupported | Composed bitmap

definition copyToClipboard :: "bool \<Rightarrow> editor \<Rightarrow> export_outcome" where
  "copyToClipboard clipboardSupported st =
     (case canvas st of
        None \<Rightarrow> CannotExportEmpty
      | Some c \<Rightarrow>
          if cv_width c = 0 \<or> cv_height c = 0 then CannotExportEmpty
          else if isDrawing st \<and> isToolActive Crop st then FinalizeCropFirst
          else if \<not> clipboardSupported then ClipboardUnsupported
          else Composed (prepareFinalCanvas st))"

definition saveImage :: "editor \<Rightarrow> export_outcome" where
  "saveImage st =
     (case canvas st of
        None \<Rightarrow> CannotExportEmpty
      | Some c \<Rightarrow>
          if cv_width c = 0 \<or> cv_height c = 0 then CannotExportEmpty
          else if isDrawing st \<and> isToolActive Crop st then FinalizeCropFirst
          else Composed (prepareFinalCanvas st))"

section \<open>Unloading (editor-init.js)\<close>

text \<open>\<open>cleanup\<close> runs when the page unloads; it nulls the canvases and empties the lists.\<close>

definition cleanup :: "editor \<Rightarrow> editor" where
  "cleanup st =
     st\<lparr>canvas := None, offscreenCanvas := None, originalImage := None,
        annotationElements := [], lastImageData := None, activeTools := {}\<rparr>"

section \<open>Notions used to state the properties\<close>

text \<open>
  The crop algorithm as the specification words it (section 4.4, steps 2 to 4), each
  formula evaluated in the program's number type.  \<open>spec_scale\<close> is
  \<open>scaleX = originalWidth / currentWidth\<close>; \<open>spec_sourceOrigin\<close> is
  \<open>sourceX = round (x0 * scaleX)\<close>, clamped again to the original image;
  \<open>spec_sourceSize\<close> is \<open>sourceW = round (w * scaleX)\<close>, clamped to what the image
  has right of the origin and to at least one pixel; \<open>spec_reproject\<close> is
  \<open>newX = round (element.x * scaleX - sourceX)\<close> and its analogues for y, width and
  height.
\<close>

definition spec_scale :: "nat \<Rightarrow> nat \<Rightarrow> real" where
  "spec_scale original current = fl64 (real original / real current)"

definition spec_sourceOrigin :: "real \<Rightarrow> real \<Rightarrow> nat \<Rightarrow> int" where
  "spec_sourceOrigin x0 scale original = max 0 (min (Math_round (fl64 (x0 * scale))) (int original))"

definition spec_sourceSize :: "real \<Rightarrow> real \<Rightarrow> nat \<Rightarrow> int \<Rightarrow> int" where
  "spec_sourceSize w scale original origin =
     max 1 (min (Math_round (fl64 (w * scale))) (int original - origin))"

definition spec_reproject :: "real \<Rightarrow> real \<Rightarrow> int \<Rightarrow> int \<Rightarrow> element \<Rightarrow> element" where
  "spec_reproject scaleX scaleY sourceX sourceY e =
     e\<lparr>el_x := of_int (Math_round (fl64 (fl64 (el_x e * scaleX) - of_int sourceX))),
       el_y := of_int (Math_round (fl64 (fl64 (el_y e * scaleY) - of_int sourceY))),
       el_width := of_int (Math_round (fl64 (el_width e * scaleX))),
       el_height := of_int (Math_round (fl64 (el_height e * scaleY)))\<rparr>"

text \<open>
  \<open>boundsIntersect\<close>: the half-open rectangle of an element and the bitmap
  \<open>[0, newW) \<times> [0, newH)\<close> have a point in common.  \<open>clampedToBitmap\<close>: the rectangle
  lies within the bitmap.  \<open>manualReproject\<close> is the reference computation for an element
  under a crop, on whole pixels: scale the corner and the size into the original image,
  round each to a whole pixel, then translate the corner by the integer crop origin.
  \<open>insideSelection\<close>: the element lies entirely inside the clamped selection rectangle;
  \<open>pixelSizes\<close>: image and canvas are at most \<open>2 ^ 26\<close> pixels wide and high, so that
  every scaled coordinate is below \<open>2 ^ 53\<close>; \<open>wholePixelSelection\<close>: both corners of
  the selection are whole pixels of the canvas.
\<close>

definition boundsIntersect :: "int \<Rightarrow> int \<Rightarrow> element \<Rightarrow> bool" where
  "boundsIntersect newW newH e =
     (max (el_x e) 0 < min (el_x e + el_width e) (of_int newW)
      \<and> max (el_y e) 0 < min (el_y e + el_height e) (of_int newH))"

definition clampedToBitmap :: "int \<Rightarrow> int \<Rightarrow> element \<Rightarrow> bool" where
  "clampedToBitmap newW newH e =
     (0 \<le> el_x e \<and> 0 \<le> el_y e
      \<and> el_x e + el_width e \<le> of_int newW \<and> el_y e + el_height e \<le> of_int newH)"

definition manualReproject :: "real \<Rightarrow> real \<Rightarrow> int \<Rightarrow> int \<Rightarrow> element \<Rightarrow> int \<times> int \<times> int \<times> int" where
  "manualReproject scaleX scaleY sourceX sourceY e =
     (Math_round (fl64 (el_x e * scaleX)) - sourceX, Math_round (fl64 (el_y e * scaleY)) - sourceY,
      Math_round (fl64 (el_width e * scaleX)), Math_round (fl64 (el_height e * scaleY)))"

definition insideSelection :: "point \<Rightarrow> point \<Rightarrow> bitmap \<Rightarrow> element \<Rightarrow> bool" where
  "insideSelection cs ce off e =
     (clampedStart (pt_x cs) (pt_x ce) (bm_width off) \<le> el_x e
      \<and> 0 \<le> el_width e
      \<and> el_x e + el_width e
            \<le> clampedStart (pt_x cs) (pt_x ce) (bm_width off) + clampedExtent (pt_x cs) (pt_x ce) (bm_width off)
      \<and> clampedStart (pt_y cs) (pt_y ce) (bm_height off) \<le> el_y e
      \<and> 0 \<le> el_height e
      \<and> el_y e + el_height e
            \<le> clampedStart (pt_y cs) (pt_y ce) (bm_height off) + clampedExtent (pt_y cs) (pt_y ce) (bm_height off))"

definition wholeWithin :: "real \<Rightarrow> nat \<Rightarrow> bool" where
  "wholeWithin v n = (of_int \<lfloor>v\<rfloor> = v \<and> 0 \<le> v \<and> v \<le> real n)"

definition wholePixelSelection :: "point \<Rightarrow> point \<Rightarrow> bitmap \<Rightarrow> bool" where
  "wholePixelSelection cs ce off =
     (wholeWithin (pt_x cs) (bm_width off) \<and> wholeWithin (pt_x ce) (bm_width off)
      \<and> wholeWithin (pt_y cs) (bm_height off) \<and> wholeWithin (pt_y ce) (bm_height off))"

definition pixelSizes :: "image \<Rightarrow> bitmap \<Rightarrow> bool" where
  "pixelSizes img off =
     (naturalWidth img \<le> 2 ^ 26 \<and> naturalHeight img \<le> 2 ^ 26
      \<and> bm_width off \<le> 2 ^ 26 \<and> bm_height off \<le> 2 ^ 26)"

text \<open>
  Sample data: an 800 by 600 screenshot, an editor showing it with the crop tool active
  and a selection from \<open>p\<close> to \<open>q\<close>, and a rectangle element.
\<close>

definition rectElement :: "string \<Rightarrow> real \<Rightarrow> real \<Rightarrow> real \<Rightarrow> real \<Rightarrow> element" where
  "rectElement i x y w h =
     \<lparr>el_type = ''rect'', el_id = i, el_x = x, el_y = y, el_width = w, el_height = h,
      el_color = ''#000000''\<rparr>"

definition sampleImage :: "bool \<Rightarrow> image" where
  "sampleImage broken =
     \<lparr>naturalWidth = 800, naturalHeight = 600, img_px = (\<lambda>i j. white), img_broken = broken\<rparr>"

definition cropScenario :: "element list \<Rightarrow> bool \<Rightarrow> point \<Rightarrow> point \<Rightarrow> editor" where
  "cropScenario els broken p q =
     \<lparr>canvas = Some \<lparr>cv_width = 800, cv_height = 600, cv_content = []\<rparr>,
      offscreenCanvas = Some (drawImageRegion (sampleImage broken) 0 0 800 600),
      activeTools = {Crop}, isDrawing = False,
      cropStart = Some p, cropEnd = Some q, annotateStart = None,
      originalImage = Some (sampleImage broken), lastImageData = None,
      annotationElements = els, canvasRect = None,
      toolShown = (\<lambda>t. t = Crop \<or> t = Annotate),
      layoutRect = \<lparr>r_left = 0, r_top = 0, r_width = 800, r_height = 600\<rparr>,
      inThrottle = False, timeoutId = False, pendingFrames = []\<rparr>"

text \<open>
  The editor after a first crop of the 800 by 600 screenshot to the 400 by 112 region at
  (100, 100), with the crop tool active again and a selection from \<open>p\<close> to \<open>q\<close>: the
  canvases are 400 by 112 while the original image is still 800 by 600, so the scale
  factors are \<open>2\<close> and \<open>600 / 112\<close>.
\<close>

definition recropScenario :: "element list \<Rightarrow> point \<Rightarrow> point \<Rightarrow> editor" where
  "recropScenario els p q =
     (cropScenario els False p q)
       \<lparr>canvas := Some \<lparr>cv_width = 400, cv_height = 112, cv_content = []\<rparr>,
        offscreenCanvas := Some (drawImageRegion (sampleImage False) 100 100 400 112),
        layoutRect := \<lparr>r_left = 0, r_top = 0, r_width = 400, r_height = 112\<rparr>\<rparr>"

text \<open>
  \<open>drawingToolsExclusive\<close>: crop and annotate are not both active.  \<open>usedRect\<close> is
  the display rectangle \<open>getMousePos\<close> works with: the cached one, or the one it reads
  from the layout when nothing is cached.
\<close>

definition drawingToolsExclusive :: "editor \<Rightarrow> bool" where
  "drawingToolsExclusive st = (\<not> (isToolActive Crop st \<and> isToolActive Annotate st))"

definition usedRect :: "editor \<Rightarrow> dom_rect" where
  "usedRect st = (case canvasRect st of Some r \<Rightarrow> r | None \<Rightarrow> layoutRect st)"

text \<open>
  \<open>offscreenInvalid\<close> is the guard of \<open>prepareFinalCanvas\<close>, \<open>canvasEmpty\<close> the first
  guard of \<open>copyToClipboard\<close> and \<open>saveImage\<close>.
\<close>

definition offscreenInvalid :: "editor \<Rightarrow> bool" where
  "offscreenInvalid st =
     (case offscreenCanvas st of None \<Rightarrow> True | Some off \<Rightarrow> bm_width off = 0 \<or> bm_height off = 0)"

definition canvasEmpty :: "editor \<Rightarrow> bool" where
  "canvasEmpty st =
     (case canvas st of None \<Rightarrow> True | Some c \<Rightarrow> cv_width c = 0 \<or> cv_height c = 0)"

text \<open>A two by two opaque bitmap, red on the diagonal.\<close>

definition checker :: bitmap where
  "checker = \<lparr>bm_width = 2, bm_height = 2,
     bm_px = (\<lambda>i j. if i = j then \<lparr>ch_r = 1, ch_g = 0, ch_b = 0, ch_a = 1\<rparr> else black)\<rparr>"

text \<open>
  Sample interaction states: a pointer event at a client position, a crop drag in
  progress anchored at (100, 100), an editor with the annotate tool active, an annotate
  drag anchored at (10, 10) whose preview to (30, 30) has been drawn, and two complete
  annotate drags committed at clock readings \<open>t1\<close> and \<open>t2\<close>.
\<close>

definition dragScenario :: editor where
  "dragScenario =
     (cropScenario [] False \<lparr>pt_x = 100, pt_y = 100\<rparr> \<lparr>pt_x = 100, pt_y = 100\<rparr>)\<lparr>isDrawing := True\<rparr>"

definition moveTo :: "real \<Rightarrow> real \<Rightarrow> mouse_event" where
  "moveTo x y = \<lparr>clientX = x, clientY = y, button = 0\<rparr>"

definition annotateScenario :: "element list \<Rightarrow> editor" where
  "annotateScenario els =
     redrawCanvas ((cropScenario els False \<lparr>pt_x = 0, pt_y = 0\<rparr> \<lparr>pt_x = 0, pt_y = 0\<rparr>)
       \<lparr>activeTools := {Annotate}, cropStart := None, cropEnd := None,
        canvasRect := Some \<lparr>r_left = 0, r_top = 0, r_width = 800, r_height = 600\<rparr>\<rparr>)"

definition previewState :: editor where
  "previewState =
     animationFrame (handleMouseMove (moveTo 30 30)
       (handleMouseDown (moveTo 10 10) (annotateScenario [])))"

definition twoDrags :: "nat \<Rightarrow> nat \<Rightarrow> editor" where
  "twoDrags t1 t2 =
     handleMouseUp t2 (moveTo 130 150) (handleMouseDown (moveTo 100 100)
       (handleMouseUp t1 (moveTo 50 40) (handleMouseDown (moveTo 10 10) (annotateScenario []))))"

text \<open>The number a decimal rendering denotes; it inverts \<open>digits\<close>.\<close>

definition digitsValue :: "string \<Rightarrow> nat" where
  "digitsValue s = foldl (\<lambda>a c. 10 * a + (of_char c - 48)) 0 s"

text \<open>The exponent of the spacing of binary64 values around \<open>x\<close>.\<close>

definition ulpExp :: "real \<Rightarrow> int" where
  "ulpExp x = max (expo x) (- 1022) - 52"

section \<open>Verification\<close>

subsection \<open>Properties of binary64 rounding\<close>

lemma expo_ge1:
  assumes "1 \<le> \<bar>x\<bar>"
  shows "2 powi expo x \<le> \<bar>x\<bar>" and "\<bar>x\<bar> < 2 powi (expo x + 1)"
proof -
  define n where "n = nat \<lfloor>\<bar>x\<bar>\<rfloor>"
  have f: "1 \<le> \<lfloor>\<bar>x\<bar>\<rfloor>" using assms by linarith
  have rn: "real n = of_int \<lfloor>\<bar>x\<bar>\<rfloor>" using f by (simp add: n_def)
  have n: "0 < n" using f by (simp add: n_def)
  have lo: "real n \<le> \<bar>x\<bar>" and hi: "\<bar>x\<bar> < real n + 1" unfolding rn by linarith+
  have p: "0 < floorlog 2 n" using n by (simp add: floorlog_def)
  have "2 ^ (floorlog 2 n - 1) \<le> n" using floorlog_bounds [of n 2] n by simp
  then have "real (2 ^ (floorlog 2 n - 1)) \<le> real n" by (rule of_nat_mono)
  then have "(2::real) ^ (floorlog 2 n - 1) \<le> real n" by (simp only: of_nat_power of_nat_numeral)
  with lo have r1: "(2::real) ^ (floorlog 2 n - 1) \<le> \<bar>x\<bar>" by linarith
  have "n < 2 ^ floorlog 2 n" using floorlog_bounds [of n 2] n by simp
  then have "Suc n \<le> 2 ^ floorlog 2 n" by simp
  then have "real (Suc n) \<le> real (2 ^ floorlog 2 n)" by (rule of_nat_mono)
  then have "real n + 1 \<le> (2::real) ^ floorlog 2 n"
    by (simp only: of_nat_power of_nat_numeral of_nat_Suc)
  with hi have r2: "\<bar>x\<bar> < (2::real) ^ floorlog 2 n" by linarith
  have e1: "expo x = int (floorlog 2 n - 1)"
    using assms p by (simp add: expo_def n_def [symmetric] of_nat_diff)
  have e2: "expo x + 1 = int (floorlog 2 n)"
    using assms p by (simp add: expo_def n_def [symmetric])
  show "2 powi expo x \<le> \<bar>x\<bar>" unfolding e1 using r1 by (simp only: power_int_of_nat)
  show "\<bar>x\<bar> < 2 powi (expo x + 1)" unfolding e2 using r2 by (simp only: power_int_of_nat)
qed

lemma expo_lt1:
  assumes "x \<noteq> 0" and "\<bar>x\<bar> < 1"
  shows "2 powi expo x \<le> \<bar>x\<bar>" and "\<bar>x\<bar> < 2 powi (expo x + 1)"
proof -
  define z where "z = 1 / \<bar>x\<bar>"
  define N where "N = nat \<lceil>z\<rceil>"
  have x: "0 < \<bar>x\<bar>" using assms by simp
  have z1: "1 < z" using x assms(2) by (simp add: z_def field_simps)
  have c2: "2 \<le> \<lceil>z\<rceil>" using z1 by linarith
  have rN: "real N = of_int \<lceil>z\<rceil>" using c2 by (simp add: N_def)
  have N2: "2 \<le> N" using c2 by (simp add: N_def le_nat_iff)
  have zle: "z \<le> real N" and zgt: "real N - 1 < z" unfolding rN by linarith+
  define c where "c = ceillog2 N"
  have "N \<le> 2 ^ c" unfolding c_def by (rule le_two_power_ceillog2)
  then have "real N \<le> real (2 ^ c)" by (rule of_nat_mono)
  then have "real N \<le> (2::real) ^ c" by (simp only: of_nat_power of_nat_numeral)
  with zle have zc: "z \<le> 2 ^ c" by linarith
  have cpos: "0 < c"
  proof (rule ccontr)
    assume "\<not> 0 < c"
    then have "c = 0" by simp
    with \<open>N \<le> 2 ^ c\<close> N2 show False by simp
  qed
  have "2 ^ c < 2 * N" unfolding c_def using two_power_ceillog2_gt [of N] N2 by simp
  moreover have "(2::nat) ^ c = 2 * 2 ^ (c - 1)" using cpos by (cases c) simp_all
  ultimately have "2 ^ (c - 1) < N" by simp
  then have "Suc (2 ^ (c - 1)) \<le> N" by simp
  then have "real (Suc (2 ^ (c - 1))) \<le> real N" by (rule of_nat_mono)
  then have "(2::real) ^ (c - 1) + 1 \<le> real N"
    by (simp only: of_nat_power of_nat_numeral of_nat_Suc)
  with zgt have zc': "(2::real) ^ (c - 1) < z" by linarith
  have e: "expo x = - int c"
    using assms(2) by (simp add: expo_def c_def N_def z_def)
  have p1: "(2::real) powi (- int c) = 1 / 2 ^ c"
    by (simp add: power_int_minus inverse_eq_divide)
  have p2: "(2::real) powi (- int c + 1) = 1 / 2 ^ (c - 1)"
    using cpos by (cases c) (simp_all add: power_int_minus inverse_eq_divide)
  have "1 / 2 ^ c \<le> \<bar>x\<bar>" using zc x by (simp add: z_def field_simps)
  then show "2 powi expo x \<le> \<bar>x\<bar>" unfolding e p1 .
  have "\<bar>x\<bar> < 1 / 2 ^ (c - 1)" using zc' x by (simp add: z_def field_simps)
  then show "\<bar>x\<bar> < 2 powi (expo x + 1)" unfolding e p2 .
qed

lemma expo_bounds:
  assumes "x \<noteq> 0"
  shows "2 powi expo x \<le> \<bar>x\<bar>" and "\<bar>x\<bar> < 2 powi (expo x + 1)"
  using expo_ge1 [of x] expo_lt1 [OF assms] by (cases "1 \<le> \<bar>x\<bar>"; simp)+

lemma powi_two_mono: "m \<le> n \<Longrightarrow> (2::real) powi m \<le> 2 powi n"
  by (rule power_int_increasing) simp_all

lemma powi_two_less_cancel: "(2::real) powi m < 2 powi n \<Longrightarrow> m < n"
  using powi_two_mono [of n m] by (cases "m < n") auto

lemma expo_eqI:
  assumes "2 powi n \<le> \<bar>x\<bar>" and "\<bar>x\<bar> < 2 powi (n + 1)"
  shows "expo x = n"
proof -
  have "0 < (2::real) powi n" by (rule zero_less_power_int) simp
  have x: "x \<noteq> 0"
  proof
    assume "x = 0"
    with assms(1) have "(2::real) powi n \<le> 0" by simp
    with \<open>0 < (2::real) powi n\<close> show False by linarith
  qed
  have "(2::real) powi n < 2 powi (expo x + 1)"
    using assms(1) expo_bounds(2) [OF x] by linarith
  then have a: "n < expo x + 1" by (rule powi_two_less_cancel)
  have "(2::real) powi expo x < 2 powi (n + 1)"
    using assms(2) expo_bounds(1) [OF x] by linarith
  then have "expo x < n + 1" by (rule powi_two_less_cancel)
  with a show ?thesis by simp
qed

lemma roundTiesToEven_of_int [simp]: "roundTiesToEven (of_int m) = m"
  by (simp add: roundTiesToEven_def)

lemma roundTiesToEven_mono:
  assumes "x \<le> y"
  shows "roundTiesToEven x \<le> roundTiesToEven y"
proof (cases "\<lfloor>x\<rfloor> = \<lfloor>y\<rfloor>")
  case True
  with assms show ?thesis by (auto simp: roundTiesToEven_def Let_def)
next
  case False
  with assms have "\<lfloor>x\<rfloor> + 1 \<le> \<lfloor>y\<rfloor>" using floor_mono [OF assms] by linarith
  moreover have "roundTiesToEven x \<le> \<lfloor>x\<rfloor> + 1" by (simp add: roundTiesToEven_def Let_def)
  moreover have "\<lfloor>y\<rfloor> \<le> roundTiesToEven y" by (simp add: roundTiesToEven_def Let_def)
  ultimately show ?thesis by linarith
qed

lemma roundTiesToEven_le: "y \<le> of_int k \<Longrightarrow> roundTiesToEven y \<le> k"
  using roundTiesToEven_mono [of y "of_int k"] by simp

lemma roundTiesToEven_ge: "of_int k \<le> y \<Longrightarrow> k \<le> roundTiesToEven y"
  using roundTiesToEven_mono [of "of_int k" y] by simp

lemma fl64_alt: "x \<noteq> 0 \<Longrightarrow> fl64 x = of_int (roundTiesToEven (x / 2 powi ulpExp x)) * 2 powi ulpExp x"
  by (simp add: fl64_def ulpExp_def Let_def)

lemma fl64_zero [simp]: "fl64 0 = 0"
  by (simp add: fl64_def)

lemma powi_two_pos [simp]: "0 < (2::real) powi k"
  by (rule zero_less_power_int) simp

lemma powi_two_split: "j \<le> k \<Longrightarrow> (2::real) powi k = of_int (2 ^ nat (k - j)) * 2 powi j"
proof -
  assume jk: "j \<le> k"
  define d where "d = nat (k - j)"
  have k: "k = int d + j" using jk by (simp add: d_def)
  have "(2::real) powi (int d + j) = 2 powi int d * 2 powi j" by (rule power_int_add) simp
  also have "(2::real) powi int d = 2 ^ d" by (rule power_int_of_nat)
  also have "(2::real) ^ d = of_int (2 ^ d)" by simp
  finally show ?thesis unfolding d_def [symmetric] k [symmetric] .
qed

text \<open>A value on the grid of \<open>x\<close> is not crossed by rounding \<open>x\<close>.\<close>

lemma grid_le:
  assumes "x \<le> of_int m * 2 powi k" and "j \<le> k"
  shows "of_int (roundTiesToEven (x / 2 powi j)) * 2 powi j \<le> (of_int m * 2 powi k :: real)"
proof -
  have k: "(2::real) powi k = of_int (2 ^ nat (k - j)) * 2 powi j" using assms(2) by (rule powi_two_split)
  have "x / 2 powi j \<le> of_int (m * 2 ^ nat (k - j))"
    using assms(1) by (simp add: k field_simps)
  then have "roundTiesToEven (x / 2 powi j) \<le> m * 2 ^ nat (k - j)" by (rule roundTiesToEven_le)
  then have "(of_int (roundTiesToEven (x / 2 powi j)) :: real) \<le> of_int (m * 2 ^ nat (k - j))"
    by (simp only: of_int_le_iff)
  then have "of_int (roundTiesToEven (x / 2 powi j)) * (2::real) powi j \<le> of_int (m * 2 ^ nat (k - j)) * 2 powi j"
    by (rule mult_right_mono) simp
  then show ?thesis by (simp add: k mult.assoc)
qed

lemma grid_ge:
  assumes "of_int m * 2 powi k \<le> x" and "j \<le> k"
  shows "(of_int m * 2 powi k :: real) \<le> of_int (roundTiesToEven (x / 2 powi j)) * 2 powi j"
proof -
  have k: "(2::real) powi k = of_int (2 ^ nat (k - j)) * 2 powi j" using assms(2) by (rule powi_two_split)
  have "of_int (m * 2 ^ nat (k - j)) \<le> x / 2 powi j"
    using assms(1) by (simp add: k field_simps)
  then have "m * 2 ^ nat (k - j) \<le> roundTiesToEven (x / 2 powi j)" by (rule roundTiesToEven_ge)
  then have "(of_int (m * 2 ^ nat (k - j)) :: real) \<le> of_int (roundTiesToEven (x / 2 powi j))"
    by (simp only: of_int_le_iff)
  then have "of_int (m * 2 ^ nat (k - j)) * (2::real) powi j \<le> of_int (roundTiesToEven (x / 2 powi j)) * 2 powi j"
    by (rule mult_right_mono) simp
  then show ?thesis by (simp add: k mult.assoc)
qed

lemma ulpExp_le:
  assumes "x \<noteq> 0" and "\<bar>x\<bar> < 2 powi (53 + k)" and "- 1074 \<le> k"
  shows "ulpExp x \<le> k"
proof -
  have "(2::real) powi expo x < 2 powi (53 + k)"
    using expo_bounds(1) [OF assms(1)] assms(2) by linarith
  then have "expo x < 53 + k" by (rule powi_two_less_cancel)
  with assms(3) show ?thesis by (simp add: ulpExp_def)
qed

text \<open>A number with a 53-bit significand is a binary64 value: rounding leaves it alone.\<close>

lemma fl64_representable_strict:
  assumes "x = of_int m * 2 powi k" and "\<bar>m\<bar> < 2 ^ 53" and "- 1074 \<le> k"
  shows "fl64 x = x"
proof (cases "x = 0")
  case True
  then show ?thesis by simp
next
  case False
  have p: "(2::real) powi (53 + k) = of_int (2 ^ 53) * 2 powi k"
  proof -
    have "(2::real) powi (53 + k) = 2 powi 53 * 2 powi k" by (rule power_int_add) simp
    moreover have "(2::real) powi 53 = of_int (2 ^ 53)" by simp
    ultimately show ?thesis by (simp only:)
  qed
  have "(of_int \<bar>m\<bar> :: real) < of_int (2 ^ 53)" using assms(2) by (simp only: of_int_less_iff)
  then have "of_int \<bar>m\<bar> * (2::real) powi k < of_int (2 ^ 53) * 2 powi k"
    by (rule mult_strict_right_mono) simp
  moreover have "\<bar>x\<bar> = of_int \<bar>m\<bar> * 2 powi k" by (simp add: assms(1) abs_mult)
  ultimately have "\<bar>x\<bar> < 2 powi (53 + k)" by (simp only: p)
  then have "ulpExp x \<le> k" using False assms(3) by (intro ulpExp_le)
  define j where "j = ulpExp x"
  have j: "j \<le> k" using \<open>ulpExp x \<le> k\<close> by (simp add: j_def)
  have k: "(2::real) powi k = of_int (2 ^ nat (k - j)) * 2 powi j"
    using j by (rule powi_two_split)
  have "x / 2 powi j = of_int m * of_int (2 ^ nat (k - j))"
    unfolding assms(1) k by simp
  then have q: "x / 2 powi j = of_int (m * 2 ^ nat (k - j))" by simp
  have "fl64 x = of_int (roundTiesToEven (x / 2 powi j)) * 2 powi j"
    unfolding j_def by (rule fl64_alt [OF False])
  also have "\<dots> = of_int (m * 2 ^ nat (k - j)) * 2 powi j"
    by (simp only: q roundTiesToEven_of_int)
  also have "\<dots> = of_int m * 2 powi k" unfolding k by simp
  finally show ?thesis by (simp add: assms(1))
qed

lemma fl64_representable:
  assumes "x = of_int m * 2 powi k" and "\<bar>m\<bar> \<le> 2 ^ 53" and "- 1074 \<le> k"
  shows "fl64 x = x"
proof (cases "\<bar>m\<bar> < 2 ^ 53")
  case True
  with assms show ?thesis by (intro fl64_representable_strict [of x m k])
next
  case False
  with assms(2) have "\<bar>m\<bar> = 2 ^ 53" by linarith
  then have m: "\<bar>m\<bar> = 9007199254740992" by simp
  then have "m = 2 * (m div 2)" by presburger
  then have "of_int m = 2 * (of_int (m div 2) :: real)"
    by (metis of_int_mult of_int_numeral)
  moreover have "(2::real) powi (k + 1) = 2 powi k * 2" by (simp add: power_int_add)
  ultimately have x: "x = of_int (m div 2) * 2 powi (k + 1)" by (simp add: assms(1))
  have "\<bar>m div 2\<bar> < 9007199254740992" using m by presburger
  then have "\<bar>m div 2\<bar> < 2 ^ 53" by simp
  then show ?thesis using x assms(3) by (intro fl64_representable_strict [of x "m div 2" "k + 1"]) simp_all
qed

lemma fl64_of_int: "\<bar>n\<bar> \<le> 2 ^ 53 \<Longrightarrow> fl64 (of_int n) = of_int n"
  using fl64_representable [of "of_int n" n 0] by simp

lemma ulpExp_ge: "- 1074 \<le> ulpExp x" and ulpExp_expo: "expo x - 52 \<le> ulpExp x"
  by (simp_all add: ulpExp_def)

lemma abs_less_grid:
  assumes "x \<noteq> 0"
  shows "\<bar>x\<bar> < of_int (2 ^ 53) * 2 powi ulpExp x"
proof -
  have "expo x + 1 \<le> 53 + ulpExp x" using ulpExp_expo [of x] by simp
  then have "(2::real) powi (expo x + 1) \<le> 2 powi (53 + ulpExp x)" by (rule powi_two_mono)
  moreover have "(2::real) powi (53 + ulpExp x) = 2 powi 53 * 2 powi ulpExp x"
    by (rule power_int_add) simp
  moreover have "(2::real) powi 53 = of_int (2 ^ 53)" by simp
  ultimately have "(2::real) powi (expo x + 1) \<le> of_int (2 ^ 53) * 2 powi ulpExp x"
    by (simp only:)
  with expo_bounds(2) [OF assms] show ?thesis by linarith
qed

text \<open>The result of rounding has a 53-bit significand at the exponent of the argument.\<close>

lemma fl64_form:
  assumes "x \<noteq> 0"
  shows "\<exists>M. fl64 x = of_int M * 2 powi ulpExp x \<and> \<bar>M\<bar> \<le> 2 ^ 53"
proof -
  define u :: real where "u = 2 powi ulpExp x"
  have u: "0 < u" by (simp add: u_def)
  have b: "\<bar>x\<bar> < of_int (2 ^ 53) * u" unfolding u_def by (rule abs_less_grid [OF assms])
  have "x / u \<le> of_int (2 ^ 53)" using b u by (simp add: field_simps abs_less_iff)
  then have hi: "roundTiesToEven (x / u) \<le> 2 ^ 53" by (rule roundTiesToEven_le)
  have "of_int (- (2 ^ 53)) \<le> x / u" using b u by (simp add: field_simps abs_less_iff)
  then have lo: "- (2 ^ 53) \<le> roundTiesToEven (x / u)" by (rule roundTiesToEven_ge)
  have "fl64 x = of_int (roundTiesToEven (x / u)) * u"
    unfolding u_def by (rule fl64_alt [OF assms])
  with hi lo show ?thesis unfolding u_def by (intro exI [of _ "roundTiesToEven (x / 2 powi ulpExp x)"]) simp
qed

lemma fl64_nonneg:
  assumes "0 \<le> x"
  shows "0 \<le> fl64 x"
proof (cases "x = 0")
  case True
  then show ?thesis by simp
next
  case False
  have "of_int 0 \<le> x / 2 powi ulpExp x" using assms by simp
  then have "0 \<le> roundTiesToEven (x / 2 powi ulpExp x)" by (rule roundTiesToEven_ge)
  then show ?thesis unfolding fl64_alt [OF False] by simp
qed

lemma expo_mono:
  assumes "0 < x" and "x \<le> y"
  shows "expo x \<le> expo y"
proof -
  have x: "x \<noteq> 0" and y: "y \<noteq> 0" using assms by auto
  have "(2::real) powi expo x < 2 powi (expo y + 1)"
    using expo_bounds(1) [OF x] expo_bounds(2) [OF y] assms by linarith
  then have "expo x < expo y + 1" by (rule powi_two_less_cancel)
  then show ?thesis by simp
qed

text \<open>Rounding is monotone (shown for non-negative arguments, which is what the crop uses).\<close>

lemma fl64_mono:
  assumes "0 \<le> x" and "x \<le> y"
  shows "fl64 x \<le> fl64 y"
proof (cases "x = 0")
  case True
  with assms show ?thesis by (simp add: fl64_nonneg)
next
  case False
  with assms have x: "0 < x" "x \<noteq> 0" and y: "0 < y" "y \<noteq> 0" by auto
  have e: "expo x \<le> expo y" using x(1) assms(2) by (rule expo_mono)
  then have j: "ulpExp x \<le> ulpExp y" by (simp add: ulpExp_def)
  show ?thesis
  proof (cases "ulpExp x = ulpExp y")
    case True
    have "x / 2 powi ulpExp y \<le> y / 2 powi ulpExp y"
      using assms(2) by (simp add: divide_right_mono)
    then have "roundTiesToEven (x / 2 powi ulpExp y) \<le> roundTiesToEven (y / 2 powi ulpExp y)"
      by (rule roundTiesToEven_mono)
    then have "(of_int (roundTiesToEven (x / 2 powi ulpExp y)) :: real)
                 \<le> of_int (roundTiesToEven (y / 2 powi ulpExp y))"
      by (simp only: of_int_le_iff)
    then have "of_int (roundTiesToEven (x / 2 powi ulpExp y)) * (2::real) powi ulpExp y
                 \<le> of_int (roundTiesToEven (y / 2 powi ulpExp y)) * 2 powi ulpExp y"
      by (rule mult_right_mono) simp
    then show ?thesis unfolding fl64_alt [OF x(2)] fl64_alt [OF y(2)] True .
  next
    case False
    with j have lt: "ulpExp x < ulpExp y" by simp
    then have ey: "ulpExp y = expo y - 52" and exy: "expo x + 1 \<le> expo y"
      by (auto simp: ulpExp_def max_def split: if_splits)
    have "x < 2 powi (expo x + 1)" using expo_bounds(2) [OF x(2)] x(1) by simp
    also have "(2::real) powi (expo x + 1) \<le> 2 powi expo y" using exy by (rule powi_two_mono)
    finally have "x \<le> of_int 1 * 2 powi expo y" by simp
    moreover have "ulpExp x \<le> expo y" using lt ey by simp
    ultimately have a: "fl64 x \<le> of_int 1 * 2 powi expo y"
      unfolding fl64_alt [OF x(2)] by (rule grid_le)
    have "of_int 1 * 2 powi expo y \<le> y" using expo_bounds(1) [OF y(2)] y(1) by simp
    moreover have "ulpExp y \<le> expo y" using ey by simp
    ultimately have b: "of_int 1 * 2 powi expo y \<le> fl64 y"
      unfolding fl64_alt [OF y(2)] by (rule grid_ge)
    from a b show ?thesis by linarith
  qed
qed

text \<open>Evaluation at a known binary exponent.\<close>

lemma fl64_eval:
  assumes "2 powi n \<le> \<bar>x\<bar>" and "\<bar>x\<bar> < 2 powi (n + 1)" and "- 1022 \<le> n"
  shows "fl64 x = of_int (roundTiesToEven (x / 2 powi (n - 52))) * 2 powi (n - 52)"
proof -
  have e: "expo x = n" using assms(1,2) by (rule expo_eqI)
  have "x \<noteq> 0"
  proof
    assume "x = 0"
    with assms(1) have "(2::real) powi n \<le> 0" by simp
    moreover have "0 < (2::real) powi n" by (rule powi_two_pos)
    ultimately show False by linarith
  qed
  then show ?thesis using assms(3) by (simp add: fl64_alt ulpExp_def e)
qed

text \<open>
  Subtracting a whole number from a rounded value is exact as long as the difference
  is no larger in magnitude than the value.
\<close>

lemma fl64_sub_int_exact:
  assumes "a = fl64 v" and "0 \<le> a" and "a \<le> 2 ^ 53" and "\<bar>a - of_int n\<bar> \<le> a"
  shows "fl64 (a - of_int n) = a - of_int n"
proof (cases "a = 0")
  case True
  with assms(4) have "a - of_int n = 0" by simp
  then show ?thesis by simp
next
  case False
  then have v: "v \<noteq> 0" using assms(1) by auto
  from fl64_form [OF v] obtain M where M: "a = of_int M * 2 powi ulpExp v" "\<bar>M\<bar> \<le> 2 ^ 53"
    unfolding assms(1) by blast
  define j where "j = min (ulpExp v) 0"
  define M' where "M' = M * 2 ^ nat (ulpExp v - j)"
  have j: "j \<le> 0" "j \<le> ulpExp v" "- 1074 \<le> j"
    using ulpExp_ge [of v] by (simp_all add: j_def)
  have a: "a = of_int M' * 2 powi j"
    unfolding M(1) M'_def using powi_two_split [OF j(2)] by simp
  have one: "(1::real) = of_int (2 ^ nat (- j)) * 2 powi j"
    using powi_two_split [of j 0] j(1) by simp
  have d: "a - of_int n = of_int (M' - n * 2 ^ nat (- j)) * 2 powi j"
  proof -
    have "of_int n = of_int n * (of_int (2 ^ nat (- j)) * 2 powi j :: real)"
      using one by simp
    then show ?thesis unfolding a by (simp add: algebra_simps)
  qed
  have "\<bar>of_int (M' - n * 2 ^ nat (- j)) * (2::real) powi j\<bar> \<le> of_int M' * 2 powi j"
    using assms(4) unfolding d [symmetric] a [symmetric] .
  then have "\<bar>of_int (M' - n * 2 ^ nat (- j)) :: real\<bar> * 2 powi j \<le> of_int M' * 2 powi j"
    by (simp add: abs_mult)
  then have "\<bar>of_int (M' - n * 2 ^ nat (- j)) :: real\<bar> \<le> of_int M'"
    by (rule mult_right_le_imp_le) simp
  then have le: "\<bar>M' - n * 2 ^ nat (- j)\<bar> \<le> M'"
    by (metis of_int_abs of_int_le_iff)
  have "M' \<le> 2 ^ 53"
  proof (cases "ulpExp v \<le> 0")
    case True
    then have "M' = M" by (simp add: M'_def j_def)
    with M(2) show ?thesis by simp
  next
    case False
    then have "j = 0" by (simp add: j_def)
    with a have "a = of_int M'" by simp
    with assms(3) have "(of_int M' :: real) \<le> of_int (2 ^ 53)" by simp
    then show ?thesis by (simp only: of_int_le_iff)
  qed
  with le have "\<bar>M' - n * 2 ^ nat (- j)\<bar> \<le> 2 ^ 53" by linarith
  with d j(3) show ?thesis by (intro fl64_representable [of _ "M' - n * 2 ^ nat (- j)" j])
qed

lemma fl64_nonpos:
  assumes "x \<le> 0"
  shows "fl64 x \<le> 0"
proof (cases "x = 0")
  case True
  then show ?thesis by simp
next
  case False
  have "x / 2 powi ulpExp x \<le> of_int 0" using assms by (simp add: divide_le_0_iff)
  then have "roundTiesToEven (x / 2 powi ulpExp x) \<le> 0" by (rule roundTiesToEven_le)
  then show ?thesis unfolding fl64_alt [OF False] by (simp add: mult_le_0_iff)
qed

lemma fl64_one [simp]: "fl64 1 = 1"
  using fl64_of_int [of 1] by simp

lemma fl64_numeral [simp]: "numeral k \<le> (2::int) ^ 53 \<Longrightarrow> fl64 (numeral k) = numeral k"
  using fl64_of_int [of "numeral k"] by simp

lemma fl64_neg_numeral [simp]:
  "numeral k \<le> (2::int) ^ 53 \<Longrightarrow> fl64 (- numeral k) = - numeral k"
  using fl64_of_int [of "- numeral k"] by simp

lemma fl64_of_nat: "n \<le> 2 ^ 53 \<Longrightarrow> fl64 (of_nat n) = of_nat n"
  using fl64_of_int [of "int n"] by simp

lemma fl64_of_int_pos_iff: "0 < fl64 (of_int n) \<longleftrightarrow> 0 < n"
proof
  assume p: "0 < fl64 (of_int n)"
  show "0 < n"
  proof (rule ccontr)
    assume "\<not> 0 < n"
    then have "(of_int n :: real) \<le> 0" by simp
    then have "fl64 (of_int n) \<le> 0" by (rule fl64_nonpos)
    with p show False by simp
  qed
next
  assume "0 < n"
  then have "(1::real) \<le> of_int n" by simp
  then have "fl64 1 \<le> fl64 (of_int n)" by (intro fl64_mono) simp_all
  then show "0 < fl64 (of_int n)" by simp
qed

text \<open>
  The binary64 values met in the sample crops below.  The vertical scale factor of a
  112 pixel high canvas over a 600 pixel high image is the binary64 value nearest to
  \<open>75 / 14\<close>; it lies below \<open>75 / 14\<close>, so that \<open>21\<close> times it rounds to the binary64
  value just below \<open>112.5\<close>.  The arguments are the exact products and differences that
  the crop forms: the scale factor times 21, 56, 30, 10, 9/8, 20 and 3, and the scaled
  coordinates of two elements minus the source origin 112.
\<close>

lemma fl64_scale: "fl64 (75 / 14) = 6031606643799771 / 1125899906842624"
  using fl64_eval [of 2 "75 / 14"] by (simp add: roundTiesToEven_def)

lemma fl64_source_y: "fl64 (126663739519795191 / 1125899906842624) = 7916483719987199 / 70368744177664"
  using fl64_eval [of 6 "126663739519795191 / 1125899906842624"] by (simp add: roundTiesToEven_def)

lemma fl64_source_height: "fl64 (42221246506598397 / 140737488355328) = 300"
  using fl64_eval [of 8 "42221246506598397 / 140737488355328"] by (simp add: roundTiesToEven_def)

lemma fl64_inside_y: "fl64 (90474099656996565 / 562949953421312) = 5654631228562285 / 35184372088832"
  using fl64_eval [of 7 "90474099656996565 / 562949953421312"] by (simp add: roundTiesToEven_def)

lemma fl64_inside_height: "fl64 (30158033218998855 / 562949953421312) = 3769754152374857 / 70368744177664"
  using fl64_eval [of 5 "30158033218998855 / 562949953421312"] by (simp add: roundTiesToEven_def)

lemma fl64_partial_y: "fl64 (54284459794197939 / 9007199254740992) = 3392778737137371 / 562949953421312"
  using fl64_eval [of 2 "54284459794197939 / 9007199254740992"] by (simp add: roundTiesToEven_def)

lemma fl64_partial_height: "fl64 (30158033218998855 / 281474976710656) = 3769754152374857 / 35184372088832"
  using fl64_eval [of 6 "30158033218998855 / 281474976710656"] by (simp add: roundTiesToEven_def)

lemma fl64_selection_width: "fl64 (399 / 4) = 399 / 4"
  using fl64_eval [of 6 "399 / 4"] by (simp add: roundTiesToEven_def)

lemma fl64_edge_origin: "fl64 (1201 / 2) = 1201 / 2"
  using fl64_eval [of 9 "1201 / 2"] by (simp add: roundTiesToEven_def)

lemma fl64_edge_width: "fl64 (399 / 2) = 399 / 2"
  using fl64_eval [of 7 "399 / 2"] by (simp add: roundTiesToEven_def)

lemma fl64_inside_newY: "fl64 (1713981554613101 / 35184372088832) = 1713981554613101 / 35184372088832"
  using fl64_eval [of 5 "1713981554613101 / 35184372088832"] by (simp add: roundTiesToEven_def)

lemma fl64_partial_newY: "fl64 (- (59657616046049573 / 562949953421312)) = - (7457202005756197 / 70368744177664)"
  using fl64_eval [of 6 "- (59657616046049573 / 562949953421312)"] by (simp add: roundTiesToEven_def)

lemma fl64_outside_height: "fl64 (18094819931399313 / 1125899906842624) = 1130926245712457 / 70368744177664"
  using fl64_eval [of 4 "18094819931399313 / 1125899906842624"] by (simp add: roundTiesToEven_def)

lemmas fl64_samples = fl64_scale fl64_source_y fl64_source_height fl64_inside_y fl64_inside_height fl64_partial_y fl64_partial_height
  fl64_selection_width fl64_edge_origin fl64_edge_width fl64_inside_newY fl64_partial_newY fl64_outside_height

subsection \<open>Rounding and crop geometry\<close>

declare digits.simps [simp del]

lemma Math_round_of_int [simp]: "Math_round (of_int n) = n"
  by (simp add: Math_round_def)

lemma Math_round_of_nat [simp]: "Math_round (of_nat n) = int n"
  using Math_round_of_int [of "int n"] by simp

lemma Math_round_diff_of_int: "Math_round (v - of_int n) = Math_round v - n"
proof -
  have "v - of_int n + 1 / 2 = (v + 1 / 2) - of_int n" by simp
  then show ?thesis unfolding Math_round_def by (simp only: floor_diff_of_int)
qed

lemma Math_round_mono: "x \<le> y \<Longrightarrow> Math_round x \<le> Math_round y"
  by (simp add: Math_round_def floor_mono)

lemma Math_round_le: "real_of_int (Math_round v) \<le> v + 1 / 2"
  unfolding Math_round_def by (rule of_int_floor_le)

lemma clampedStart_range: "0 \<le> clampedStart a b cur \<and> clampedStart a b cur \<le> real cur"
  by (simp add: clampedStart_def)

text \<open>The code computes the quantities that the specification names.\<close>

lemma scaleOf_spec: "scaleOf natural cur = spec_scale natural cur"
  by (simp add: scaleOf_def spec_scale_def)

lemma clampedSourceStart_spec:
  "clampedSourceStart a b cur natural
     = spec_sourceOrigin (clampedStart a b cur) (spec_scale natural cur) natural"
  by (simp add: clampedSourceStart_def sourceStart_def spec_sourceOrigin_def scaleOf_spec)

lemma clampedSourceExtent_spec:
  "clampedSourceExtent a b cur natural
     = spec_sourceSize (clampedExtent a b cur) (spec_scale natural cur) natural
         (spec_sourceOrigin (clampedStart a b cur) (spec_scale natural cur) natural)"
  by (simp add: clampedSourceExtent_def sourceExtent_def spec_sourceSize_def
        clampedSourceStart_spec scaleOf_spec)

lemma adjustElement_spec:
  "adjustElement scaleX scaleY sourceX sourceY = spec_reproject scaleX scaleY sourceX sourceY"
  by (rule ext) (simp add: adjustElement_def spec_reproject_def Let_def)

lemma spec_sourceSize_range:
  "1 \<le> spec_sourceSize w s natural origin"
  "1 < spec_sourceSize w s natural origin \<Longrightarrow> origin + spec_sourceSize w s natural origin \<le> int natural"
  by (simp_all add: spec_sourceSize_def)

lemma clampedSourceExtent_pos: "1 \<le> clampedSourceExtent a b cur natural"
  by (simp add: clampedSourceExtent_def)

lemma clampedExtent_le:
  assumes "0 < cur" and "cur \<le> 2 ^ 26"
  shows "clampedExtent a b cur \<le> real cur"
proof -
  have c: "real cur \<le> 2 ^ 26" using assms(2) by (metis of_nat_le_iff of_nat_numeral of_nat_power)
  have "cur \<le> 2 ^ 53" using assms(2) by (rule order_trans) simp
  then have f: "fl64 (real cur) = real cur" by (rule fl64_of_nat)
  have "0 \<le> real cur - clampedStart a b cur" using clampedStart_range [of a b cur] by simp
  moreover have "real cur - clampedStart a b cur \<le> real cur"
    using clampedStart_range [of a b cur] by simp
  ultimately have "fl64 (real cur - clampedStart a b cur) \<le> fl64 (real cur)" by (rule fl64_mono)
  then have "fl64 (real cur - clampedStart a b cur) \<le> real cur" by (simp only: f)
  moreover have "1 \<le> real cur" using assms(1) by simp
  ultimately show ?thesis by (simp add: clampedExtent_def)
qed

text \<open>
  At scale 1 a selection between whole pixels of the canvas yields a source rectangle of
  exactly the selected extent.
\<close>

lemma unit_scale_extent:
  assumes cur: "0 < cur" "cur \<le> 2 ^ 26"
    and pa: "pa = of_int a" "0 \<le> a" "a \<le> int cur"
    and pb: "pb = of_int b" "0 \<le> b" "b \<le> int cur"
    and ext: "1 < clampedExtent pa pb cur"
  shows "clampedSourceExtent pa pb cur cur = \<bar>b - a\<bar>"
proof -
  have c53: "int cur \<le> 2 ^ 53"
  proof -
    have "int cur \<le> int (2 ^ 26)" using cur(2) by (simp only: of_nat_le_iff)
    then show ?thesis by simp
  qed
  have x0: "clampedStart pa pb cur = of_int (min a b)"
    using pa pb by (simp add: clampedStart_def min_def)
  have "fl64 (of_int (b - a)) = of_int (b - a)"
    using pa pb c53 by (intro fl64_of_int) simp
  then have d: "fl64 (pb - pa) = of_int (b - a)" by (simp add: pa pb)
  have dce: "displayCropExtent pa pb = max 1 \<bar>b - a\<bar>"
    unfolding displayCropExtent_def d by (simp only: of_int_abs [symmetric] Math_round_of_int)
  have "fl64 (of_int (int cur - min a b)) = of_int (int cur - min a b)"
    using pa pb c53 by (intro fl64_of_int) simp
  then have f2: "fl64 (real cur - clampedStart pa pb cur) = of_int (int cur - min a b)"
    by (simp add: x0)
  have ce: "clampedExtent pa pb cur = of_int (max 1 (min (max 1 \<bar>b - a\<bar>) (int cur - min a b)))"
    unfolding clampedExtent_def f2 dce by (simp only: of_int_max of_int_min of_int_1)
  have big: "2 \<le> \<bar>b - a\<bar>"
    using ext unfolding ce by (simp add: max_def min_def split: if_splits)
  have sc: "scaleOf cur cur = 1" using cur(1) by (simp add: scaleOf_def)
  have "fl64 (of_int (min a b)) = of_int (min a b)"
    using pa pb c53 by (intro fl64_of_int) simp
  then have ss: "sourceStart pa pb cur cur = min a b"
    by (simp add: sourceStart_def x0 sc)
  have css: "clampedSourceStart pa pb cur cur = min a b"
    unfolding clampedSourceStart_def ss using pa(2,3) pb(2,3) by (simp add: min_def max_def)
  have cv: "max 1 (min (max 1 \<bar>b - a\<bar>) (int cur - min a b)) = \<bar>b - a\<bar>"
    using big pa pb by (simp add: max_def min_def)
  have "fl64 (of_int \<bar>b - a\<bar>) = of_int \<bar>b - a\<bar>"
    using pa pb c53 by (intro fl64_of_int) simp
  then have se: "sourceExtent pa pb cur cur = \<bar>b - a\<bar>"
    unfolding sourceExtent_def ce cv sc by (simp only: mult_1_right Math_round_of_int)
  show ?thesis
    unfolding clampedSourceExtent_def se css using big pa(2,3) pb(2,3)
    by (simp add: max_def min_def)
qed

text \<open>
  For a coordinate at or right of the selection the subtraction of the crop origin is
  exact in binary64, so rounding after the translation and translating after the rounding
  agree.
\<close>

lemma spec_scale_range:
  assumes "0 < cur" and "natural \<le> 2 ^ 26"
  shows "0 \<le> spec_scale natural cur" and "spec_scale natural cur \<le> 2 ^ 26"
proof -
  have "0 \<le> real natural / real cur" by simp
  then show "0 \<le> spec_scale natural cur" unfolding spec_scale_def by (rule fl64_nonneg)
  have n: "real natural \<le> 2 ^ 26" using assms(2) by (metis of_nat_le_iff of_nat_numeral of_nat_power)
  have "natural \<le> 2 ^ 53" using assms(2) by (rule order_trans) simp
  then have f: "fl64 (real natural) = real natural" by (rule fl64_of_nat)
  have c: "0 < real cur" "1 \<le> real cur" using assms(1) by simp_all
  have "real natural * 1 \<le> real natural * real cur"
    using c(2) by (rule mult_left_mono) simp
  then have "real natural \<le> real natural * real cur" by simp
  then have "real natural / real cur \<le> real natural"
    by (simp only: pos_divide_le_eq [OF c(1)])
  with \<open>0 \<le> real natural / real cur\<close> have "fl64 (real natural / real cur) \<le> fl64 (real natural)"
    by (rule fl64_mono)
  with f n show "spec_scale natural cur \<le> 2 ^ 26" by (simp add: spec_scale_def)
qed

lemma reproject_axis:
  assumes s: "0 \<le> s" "s \<le> 2 ^ 26"
    and x: "0 \<le> x0" "x0 \<le> x" "x \<le> 2 ^ 27"
    and n: "n = spec_sourceOrigin x0 s natural"
  shows "Math_round (fl64 (fl64 (x * s) - of_int n)) = Math_round (fl64 (x * s)) - n"
proof -
  define a where "a = fl64 (x * s)"
  define b where "b = fl64 (x0 * s)"
  have p0: "0 \<le> x0 * s" using s(1) x(1) by simp
  have p1: "x0 * s \<le> x * s" using s(1) x(2) by (rule mult_right_mono [rotated])
  have b0: "0 \<le> b" unfolding b_def using p0 by (rule fl64_nonneg)
  have ba: "b \<le> a" unfolding a_def b_def using p0 p1 by (rule fl64_mono)
  have "x * s \<le> 2 ^ 27 * 2 ^ 26" using x(3) s(2) s(1) x(1) x(2) by (intro mult_mono) simp_all
  then have p2: "x * s \<le> of_int (2 ^ 53)" by simp
  have "0 \<le> x * s" using p0 p1 by simp
  then have "a \<le> fl64 (of_int (2 ^ 53))" unfolding a_def using p2 by (rule fl64_mono)
  moreover have "fl64 (of_int (2 ^ 53)) = of_int (2 ^ 53)" by (rule fl64_of_int) simp
  ultimately have a53: "a \<le> 2 ^ 53" by simp
  have n0: "0 \<le> n" by (simp add: n spec_sourceOrigin_def)
  have nle: "n \<le> max 0 (Math_round b)" by (simp add: n spec_sourceOrigin_def b_def)
  have rb: "real_of_int (Math_round b) \<le> b + 1 / 2" by (rule Math_round_le)
  have d: "\<bar>a - of_int n\<bar> \<le> a"
  proof (cases "n = 0")
    case True
    with b0 ba show ?thesis by simp
  next
    case False
    with n0 have n1: "1 \<le> n" by simp
    with nle have "n \<le> Math_round b" by simp
    then have "real_of_int n \<le> real_of_int (Math_round b)" by (simp only: of_int_le_iff)
    moreover have "(1::real) \<le> of_int n" using n1 by simp
    ultimately show ?thesis using rb ba by linarith
  qed
  have "fl64 (a - of_int n) = a - of_int n"
    using a_def _ a53 d by (rule fl64_sub_int_exact) (use b0 ba in simp)
  then show ?thesis by (simp add: a_def [symmetric] Math_round_diff_of_int)
qed

subsection \<open>The crop pipeline\<close>

lemma redrawCanvas_fields [simp]:
  "offscreenCanvas (redrawCanvas st) = offscreenCanvas st"
  "annotationElements (redrawCanvas st) = annotationElements st"
  "activeTools (redrawCanvas st) = activeTools st"
  "originalImage (redrawCanvas st) = originalImage st"
  "cropStart (redrawCanvas st) = cropStart st"
  "cropEnd (redrawCanvas st) = cropEnd st"
  "annotateStart (redrawCanvas st) = annotateStart st"
  "lastImageData (redrawCanvas st) = lastImageData st"
  "isDrawing (redrawCanvas st) = isDrawing st"
  "inThrottle (redrawCanvas st) = inThrottle st"
  "map_option cv_width (canvas (redrawCanvas st)) = map_option cv_width (canvas st)"
  "map_option cv_height (canvas (redrawCanvas st)) = map_option cv_height (canvas st)"
  by (simp_all add: redrawCanvas_def split: option.splits)

lemma resetCropState_fields [simp]:
  "offscreenCanvas (resetCropState st) = offscreenCanvas st"
  "annotationElements (resetCropState st) = annotationElements st"
  "activeTools (resetCropState st) = activeTools st"
  "originalImage (resetCropState st) = originalImage st"
  "annotateStart (resetCropState st) = annotateStart st"
  "lastImageData (resetCropState st) = lastImageData st"
  "map_option cv_width (canvas (resetCropState st)) = map_option cv_width (canvas st)"
  "map_option cv_height (canvas (resetCropState st)) = map_option cv_height (canvas st)"
  "cropStart (resetCropState st) = None"
  "cropEnd (resetCropState st) = None"
  by (simp_all add: resetCropState_def Let_def split: option.splits)

lemma cropTry_Inr:
  assumes "cropTry cs ce img off st = Inr s"
  shows "annotationElements s =
           filter (keepElement (clampedSourceExtent (pt_x cs) (pt_x ce) (bm_width off) (naturalWidth img))
                               (clampedSourceExtent (pt_y cs) (pt_y ce) (bm_height off) (naturalHeight img)))
             (map (adjustElement (scaleOf (naturalWidth img) (bm_width off)) (scaleOf (naturalHeight img) (bm_height off))
                     (clampedSourceStart (pt_x cs) (pt_x ce) (bm_width off) (naturalWidth img))
                     (clampedSourceStart (pt_y cs) (pt_y ce) (bm_height off) (naturalHeight img)))
                (annotationElements st))"
    and "map_option cv_width (canvas s) = Some (nat (clampedSourceExtent (pt_x cs) (pt_x ce) (bm_width off) (naturalWidth img)))"
    and "map_option cv_height (canvas s) = Some (nat (clampedSourceExtent (pt_y cs) (pt_y ce) (bm_height off) (naturalHeight img)))"
    and "offscreenCanvas s = Some (drawImageRegion img
            (clampedSourceStart (pt_x cs) (pt_x ce) (bm_width off) (naturalWidth img))
            (clampedSourceStart (pt_y cs) (pt_y ce) (bm_height off) (naturalHeight img))
            (clampedSourceExtent (pt_x cs) (pt_x ce) (bm_width off) (naturalWidth img))
            (clampedSourceExtent (pt_y cs) (pt_y ce) (bm_height off) (naturalHeight img)))"
    and "activeTools s = activeTools st - {Crop}"
  using assms
  by (auto simp: cropTry_def Let_def setToolActive_def updateCanvasRect_def redrawCanvas_def
           split: option.splits if_splits)

lemma cropTry_Inl:
  assumes "cropTry cs ce img off st = Inl s"
  shows "annotationElements s = annotationElements st"
    and "activeTools s = activeTools st"
    and "originalImage s = originalImage st"
  using assms
  by (auto simp: cropTry_def Let_def split: option.splits if_splits)

lemma boundsIntersect_iff_point:
  "boundsIntersect newW newH e \<longleftrightarrow>
     (\<exists>p q. el_x e \<le> p \<and> p < el_x e + el_width e \<and> 0 \<le> p \<and> p < of_int newW
          \<and> el_y e \<le> q \<and> q < el_y e + el_height e \<and> 0 \<le> q \<and> q < of_int newH)"
proof
  assume "boundsIntersect newW newH e"
  then show "\<exists>p q. el_x e \<le> p \<and> p < el_x e + el_width e \<and> 0 \<le> p \<and> p < of_int newW
          \<and> el_y e \<le> q \<and> q < el_y e + el_height e \<and> 0 \<le> q \<and> q < of_int newH"
    by (intro exI [of _ "max (el_x e) 0"] exI [of _ "max (el_y e) 0"])
       (simp add: boundsIntersect_def)
next
  assume "\<exists>p q. el_x e \<le> p \<and> p < el_x e + el_width e \<and> 0 \<le> p \<and> p < of_int newW
          \<and> el_y e \<le> q \<and> q < el_y e + el_height e \<and> 0 \<le> q \<and> q < of_int newH"
  then show "boundsIntersect newW newH e"
    by (auto simp: boundsIntersect_def)
qed

lemma keepElement_iff_intersect:
  assumes "el_x e = of_int x" "el_y e = of_int y" "el_width e = of_int w" "el_height e = of_int h"
    and "0 < w" "0 < h" "0 < newW" "0 < newH"
  shows "keepElement newW newH e \<longleftrightarrow> boundsIntersect newW newH e"
proof -
  have r: "0 < fl64 (el_x e + el_width e) \<longleftrightarrow> 0 < x + w"
    using fl64_of_int_pos_iff [of "x + w"] by (simp add: assms(1,3))
  have b: "0 < fl64 (el_y e + el_height e) \<longleftrightarrow> 0 < y + h"
    using fl64_of_int_pos_iff [of "y + h"] by (simp add: assms(2,4))
  have k: "keepElement newW newH e \<longleftrightarrow> 0 < x + w \<and> 0 < y + h \<and> x < newW \<and> y < newH"
    unfolding keepElement_def Let_def r b by (simp add: assms(1,2))
  have i: "boundsIntersect newW newH e \<longleftrightarrow> 0 < x + w \<and> 0 < y + h \<and> x < newW \<and> y < newH"
    using assms(5-8) by (auto simp: boundsIntersect_def assms(1-4))
  show ?thesis by (simp only: k i)
qed

lemma scenario_fields:
  "cropStart (cropScenario els broken p q) = Some p"
  "cropEnd (cropScenario els broken p q) = Some q"
  "originalImage (cropScenario els broken p q) = Some (sampleImage broken)"
  "offscreenCanvas (cropScenario els broken p q) = Some (drawImageRegion (sampleImage broken) 0 0 800 600)"
  "annotationElements (cropScenario els broken p q) = els"
  "canvas (cropScenario els broken p q) = Some \<lparr>cv_width = 800, cv_height = 600, cv_content = []\<rparr>"
  "isToolActive Crop (cropScenario els broken p q)"
  "bm_width (drawImageRegion (sampleImage broken) 0 0 800 600) = 800"
  "bm_height (drawImageRegion (sampleImage broken) 0 0 800 600) = 600"
  "naturalWidth (sampleImage broken) = 800"
  "naturalHeight (sampleImage broken) = 600"
  "img_broken (sampleImage broken) = broken"
  by (simp_all add: cropScenario_def isToolActive_def drawImageRegion_def sampleImage_def)

lemma recrop_fields:
  "cropStart (recropScenario els p q) = Some p"
  "cropEnd (recropScenario els p q) = Some q"
  "originalImage (recropScenario els p q) = Some (sampleImage False)"
  "offscreenCanvas (recropScenario els p q) = Some (drawImageRegion (sampleImage False) 100 100 400 112)"
  "annotationElements (recropScenario els p q) = els"
  "canvas (recropScenario els p q) = Some \<lparr>cv_width = 400, cv_height = 112, cv_content = []\<rparr>"
  "isToolActive Crop (recropScenario els p q)"
  "bm_width (drawImageRegion (sampleImage False) 100 100 400 112) = 400"
  "bm_height (drawImageRegion (sampleImage False) 100 100 400 112) = 112"
  by (simp_all add: recropScenario_def cropScenario_def isToolActive_def drawImageRegion_def)

lemmas geometry_defs = clampedExtent_def displayCropExtent_def Math_round_def clampedStart_def
  clampedSourceExtent_def clampedSourceStart_def sourceStart_def sourceExtent_def scaleOf_def

lemma scenario_geometry:
  "clampedExtent 100 300 800 = 200" "clampedExtent 100 250 600 = 150"
  "clampedSourceExtent 100 300 800 800 = 200" "clampedSourceExtent 100 250 600 600 = 150"
  "clampedSourceStart 100 300 800 800 = 100" "clampedSourceStart 100 250 600 600 = 100"
  "sourceStart 100 300 800 800 = 100" "sourceStart 100 250 600 600 = 100"
  "scaleOf 800 800 = 1" "scaleOf 600 600 = 1"
  by (simp_all add: geometry_defs)

lemma scenario_tiny_geometry:
  "clampedExtent 100 101 800 = 1" "clampedExtent 100 101 600 = 1"
  by (simp_all add: geometry_defs)

text \<open>
  The clamped selections of the sample crops, and the scale factors.  In the canvas of
  400 by 112 the selections are (10, 21)-(110, 77), (10, 0)-(110, 21) and
  (300.25, 21)-(400, 77).
\<close>

lemma sample_selections:
  "clampedStart 100 300 800 = 100" "clampedExtent 100 300 800 = 200"
  "clampedStart 100 250 600 = 100" "clampedExtent 100 250 600 = 150"
  "clampedStart 10 110 400 = 10" "clampedExtent 10 110 400 = 100"
  "clampedStart 21 77 112 = 21" "clampedExtent 21 77 112 = 56"
  "clampedStart 0 21 112 = 0" "clampedExtent 0 21 112 = 21"
  "clampedStart (1201 / 4) 400 400 = 1201 / 4" "clampedExtent (1201 / 4) 400 400 = 399 / 4"
  by (simp_all add: clampedExtent_def displayCropExtent_def Math_round_def clampedStart_def
        fl64_samples)

lemma sample_scales:
  "spec_scale 800 800 = 1" "spec_scale 600 600 = 1"
  "spec_scale 800 400 = 2" "spec_scale 600 112 = 6031606643799771 / 1125899906842624"
  by (simp_all add: spec_scale_def fl64_samples)

lemma completeCrop_outcome_Completed:
  assumes "cropStart st = Some cs" "cropEnd st = Some ce"
    and "originalImage st = Some img" "offscreenCanvas st = Some off"
    and "isToolActive Crop st" "bm_width off \<noteq> 0" "bm_height off \<noteq> 0"
    and "1 < clampedExtent (pt_x cs) (pt_x ce) (bm_width off)"
    and "1 < clampedExtent (pt_y cs) (pt_y ce) (bm_height off)"
    and "canvas st \<noteq> None" "\<not> img_broken img"
  shows "fst (completeCrop st) = CropCompleted"
  using assms
  by (auto simp: completeCrop_def cropTry_def Let_def split: option.splits)

lemma completeCrop_outcome_Failed:
  assumes "cropStart st = Some cs" "cropEnd st = Some ce"
    and "originalImage st = Some img" "offscreenCanvas st = Some off"
    and "isToolActive Crop st" "bm_width off \<noteq> 0" "bm_height off \<noteq> 0"
    and "1 < clampedExtent (pt_x cs) (pt_x ce) (bm_width off)"
    and "1 < clampedExtent (pt_y cs) (pt_y ce) (bm_height off)"
    and "canvas st = Some c" "img_broken img"
  shows "fst (completeCrop st) = CropFailed"
    and "offscreenCanvas (snd (completeCrop st)) =
           Some (blank black (nat (clampedSourceExtent (pt_x cs) (pt_x ce) (bm_width off) (naturalWidth img)))
                             (nat (clampedSourceExtent (pt_y cs) (pt_y ce) (bm_height off) (naturalHeight img))))"
  using assms
  by (auto simp: completeCrop_def cropTry_def Let_def split: option.splits)

lemma scenario_completed:
  "fst (completeCrop (cropScenario els False \<lparr>pt_x = 100, pt_y = 100\<rparr> \<lparr>pt_x = 300, pt_y = 250\<rparr>)) = CropCompleted"
  by (rule completeCrop_outcome_Completed [OF scenario_fields(1-4)])
     (simp_all add: scenario_fields scenario_geometry)

lemma completeCrop_Completed_result:
  assumes "fst (completeCrop st) = CropCompleted"
    and "cropStart st = Some cs" "cropEnd st = Some ce"
    and "originalImage st = Some img" "offscreenCanvas st = Some off"
  shows "\<exists>s. cropTry cs ce img off st = Inr s \<and> snd (completeCrop st) = resetCropState s
             \<and> bm_width off \<noteq> 0 \<and> bm_height off \<noteq> 0"
  using assms
  by (auto simp: completeCrop_def split: if_splits sum.splits)

lemma recrop_completed:
  "fst (completeCrop (recropScenario els \<lparr>pt_x = 10, pt_y = 21\<rparr> \<lparr>pt_x = 110, pt_y = 77\<rparr>)) = CropCompleted"
  "fst (completeCrop (recropScenario els \<lparr>pt_x = 10, pt_y = 0\<rparr> \<lparr>pt_x = 110, pt_y = 21\<rparr>)) = CropCompleted"
  "fst (completeCrop (recropScenario els \<lparr>pt_x = 1201 / 4, pt_y = 21\<rparr> \<lparr>pt_x = 400, pt_y = 77\<rparr>)) = CropCompleted"
  by (rule completeCrop_outcome_Completed [OF recrop_fields(1-4)],
      simp_all add: recrop_fields scenario_fields sample_selections)+

lemma completeCrop_Completed_elements:
  assumes "fst (completeCrop st) = CropCompleted"
    and "cropStart st = Some cs" "cropEnd st = Some ce"
    and "originalImage st = Some img" "offscreenCanvas st = Some off"
  shows "annotationElements (snd (completeCrop st)) =
           filter (keepElement (clampedSourceExtent (pt_x cs) (pt_x ce) (bm_width off) (naturalWidth img))
                               (clampedSourceExtent (pt_y cs) (pt_y ce) (bm_height off) (naturalHeight img)))
             (map (adjustElement (scaleOf (naturalWidth img) (bm_width off))
                     (scaleOf (naturalHeight img) (bm_height off))
                     (clampedSourceStart (pt_x cs) (pt_x ce) (bm_width off) (naturalWidth img))
                     (clampedSourceStart (pt_y cs) (pt_y ce) (bm_height off) (naturalHeight img)))
                (annotationElements st))"
proof -
  from completeCrop_Completed_result [OF assms]
  obtain s where s: "cropTry cs ce img off st = Inr s" and r: "snd (completeCrop st) = resetCropState s"
    by blast
  show ?thesis using cropTry_Inr(1) [OF s] by (simp add: r)
qed

lemma scenario_elements:
  "annotationElements (snd (completeCrop (cropScenario els False \<lparr>pt_x = 100, pt_y = 100\<rparr> \<lparr>pt_x = 300, pt_y = 250\<rparr>)))
     = filter (keepElement 200 150) (map (adjustElement 1 1 100 100) els)"
  using completeCrop_Completed_elements [OF scenario_completed scenario_fields(1-4), of els]
  by (simp add: scenario_fields scenario_geometry)

lemma adjust_samples:
  "adjustElement 1 1 100 100 (rectElement i 50 50 20 20) = rectElement i (-50) (-50) 20 20"
  "adjustElement 1 1 100 100 (rectElement i 150 150 20 20) = rectElement i 50 50 20 20"
  "adjustElement 1 1 100 100 (rectElement i 90 90 20 20) = rectElement i (-10) (-10) 20 20"
  by (simp_all add: adjustElement_def rectElement_def Math_round_def)

lemma keep_samples:
  "\<not> keepElement 200 150 (rectElement i (-50) (-50) 20 20)"
  "keepElement 200 150 (rectElement i 50 50 20 20)"
  "keepElement 200 150 (rectElement i (-10) (-10) 20 20)"
  by (simp_all add: keepElement_def rectElement_def)

text \<open>The second crop: selection (10, 21)-(110, 77) on the 400 by 112 canvas.\<close>

lemma recrop_geometry:
  "scaleOf 800 400 = 2" "scaleOf 600 112 = 6031606643799771 / 1125899906842624"
  "clampedSourceStart 10 110 400 800 = 20" "clampedSourceStart 21 77 112 600 = 112"
  "clampedSourceExtent 10 110 400 800 = 200" "clampedSourceExtent 21 77 112 600 = 300"
  by (simp_all add: clampedSourceExtent_def clampedSourceStart_def sourceStart_def
        sourceExtent_def scaleOf_def Math_round_def sample_selections fl64_samples)

lemma recrop_elements:
  "annotationElements (snd (completeCrop (recropScenario els \<lparr>pt_x = 10, pt_y = 21\<rparr> \<lparr>pt_x = 110, pt_y = 77\<rparr>)))
     = filter (keepElement 200 300)
         (map (adjustElement 2 (6031606643799771 / 1125899906842624) 20 112) els)"
  using completeCrop_Completed_elements [OF recrop_completed(1) recrop_fields(1-4), of els]
  by (simp add: recrop_fields scenario_fields recrop_geometry)

lemma recrop_samples:
  "adjustElement 2 (6031606643799771 / 1125899906842624) 20 112 (rectElement i 20 30 10 10)
     = rectElement i 20 49 20 54"
  "adjustElement 2 (6031606643799771 / 1125899906842624) 20 112 (rectElement i 20 (9 / 8) 10 20)
     = rectElement i 20 (- 106) 20 107"
  "adjustElement 2 (6031606643799771 / 1125899906842624) 20 112 (rectElement i 0 0 5 3)
     = rectElement i (- 20) (- 112) 10 16"
  "keepElement 200 300 (rectElement i 20 49 20 54)"
  "keepElement 200 300 (rectElement i 20 (- 106) 20 107)"
  "\<not> keepElement 200 300 (rectElement i (- 20) (- 112) 10 16)"
  by (simp_all add: adjustElement_def keepElement_def rectElement_def Math_round_def fl64_samples)

text \<open>
  Claim C3.  For every crop that is not rejected and completes, the visible canvas and the
  working (offscreen) bitmap have exactly the width and height of the clamped source
  rectangle of the specification: \<open>sourceW = round (w * scaleX)\<close> and
  \<open>sourceH = round (h * scaleY)\<close>, clamped to the original image right of and below
  the source origin and to at least one pixel.  The conversion to the unsigned canvas
  attribute loses nothing; a source rectangle wider or higher than one pixel lies within
  the original image; and at scale 1 a selection between whole pixels yields exactly the
  selected width and height.
\<close>

theorem completeCrop_dimensions:
  assumes "fst (completeCrop st) = CropCompleted"
    and "cropStart st = Some cs" "cropEnd st = Some ce"
    and "originalImage st = Some img" "offscreenCanvas st = Some off"
    and "sourceX = spec_sourceOrigin (clampedStart (pt_x cs) (pt_x ce) (bm_width off))
                     (spec_scale (naturalWidth img) (bm_width off)) (naturalWidth img)"
    and "sourceY = spec_sourceOrigin (clampedStart (pt_y cs) (pt_y ce) (bm_height off))
                     (spec_scale (naturalHeight img) (bm_height off)) (naturalHeight img)"
    and "sourceW = spec_sourceSize (clampedExtent (pt_x cs) (pt_x ce) (bm_width off))
                     (spec_scale (naturalWidth img) (bm_width off)) (naturalWidth img) sourceX"
    and "sourceH = spec_sourceSize (clampedExtent (pt_y cs) (pt_y ce) (bm_height off))
                     (spec_scale (naturalHeight img) (bm_height off)) (naturalHeight img) sourceY"
  shows "map_option (\<lambda>c. (int (cv_width c), int (cv_height c))) (canvas (snd (completeCrop st)))
           = Some (sourceW, sourceH)
       \<and> map_option (\<lambda>b. (int (bm_width b), int (bm_height b))) (offscreenCanvas (snd (completeCrop st)))
           = Some (sourceW, sourceH)
       \<and> 1 \<le> sourceW \<and> 1 \<le> sourceH
       \<and> (1 < sourceW \<longrightarrow> sourceX + sourceW \<le> int (naturalWidth img))
       \<and> (1 < sourceH \<longrightarrow> sourceY + sourceH \<le> int (naturalHeight img))
       \<and> (wholePixelSelection cs ce off \<and> pixelSizes img off
            \<and> naturalWidth img = bm_width off \<and> naturalHeight img = bm_height off
          \<longrightarrow> real_of_int sourceW = \<bar>pt_x ce - pt_x cs\<bar> \<and> real_of_int sourceH = \<bar>pt_y ce - pt_y cs\<bar>)"
proof -
  let ?W = "clampedSourceExtent (pt_x cs) (pt_x ce) (bm_width off) (naturalWidth img)"
  let ?H = "clampedSourceExtent (pt_y cs) (pt_y ce) (bm_height off) (naturalHeight img)"
  have W: "?W = sourceW" and H: "?H = sourceH"
    by (simp_all add: clampedSourceExtent_spec assms(6-9))
  from completeCrop_Completed_result [OF assms(1-5)]
  obtain s where s: "cropTry cs ce img off st = Inr s" and r: "snd (completeCrop st) = resetCropState s"
    and nz: "bm_width off \<noteq> 0" "bm_height off \<noteq> 0"
    by blast
  have big: "1 < clampedExtent (pt_x cs) (pt_x ce) (bm_width off)"
            "1 < clampedExtent (pt_y cs) (pt_y ce) (bm_height off)"
    using assms(1-5) by (auto simp: completeCrop_def split: if_splits)
  have pos: "1 \<le> sourceW" "1 \<le> sourceH"
    by (simp_all add: assms(8,9) spec_sourceSize_range(1))
  have nW: "int (nat ?W) = sourceW" and nH: "int (nat ?H) = sourceH"
    using pos by (simp_all add: W H)
  have cw: "map_option cv_width (canvas (snd (completeCrop st))) = Some (nat ?W)"
    and ch: "map_option cv_height (canvas (snd (completeCrop st))) = Some (nat ?H)"
    using cropTry_Inr(2,3) [OF s] by (simp_all add: r)
  from cw ch obtain c where c: "canvas (snd (completeCrop st)) = Some c"
    "cv_width c = nat ?W" "cv_height c = nat ?H"
    by (cases "canvas (snd (completeCrop st))") auto
  have o: "offscreenCanvas (snd (completeCrop st)) =
             Some (drawImageRegion img
               (clampedSourceStart (pt_x cs) (pt_x ce) (bm_width off) (naturalWidth img))
               (clampedSourceStart (pt_y cs) (pt_y ce) (bm_height off) (naturalHeight img)) ?W ?H)"
    using cropTry_Inr(4) [OF s] by (simp add: r)
  have dims: "map_option (\<lambda>c. (int (cv_width c), int (cv_height c))) (canvas (snd (completeCrop st)))
                = Some (sourceW, sourceH)"
    "map_option (\<lambda>b. (int (bm_width b), int (bm_height b))) (offscreenCanvas (snd (completeCrop st)))
                = Some (sourceW, sourceH)"
    using c nW nH by (simp_all add: o drawImageRegion_def)
  have inW: "sourceX + sourceW \<le> int (naturalWidth img)" if "1 < sourceW"
    using that unfolding assms(8) by (rule spec_sourceSize_range(2))
  have inH: "sourceY + sourceH \<le> int (naturalHeight img)" if "1 < sourceH"
    using that unfolding assms(9) by (rule spec_sourceSize_range(2))
  have unit: "real_of_int sourceW = \<bar>pt_x ce - pt_x cs\<bar> \<and> real_of_int sourceH = \<bar>pt_y ce - pt_y cs\<bar>"
    if w: "wholePixelSelection cs ce off" and p: "pixelSizes img off"
      and eq: "naturalWidth img = bm_width off" "naturalHeight img = bm_height off"
  proof -
    define ax where "ax = \<lfloor>pt_x cs\<rfloor>"
    define bx where "bx = \<lfloor>pt_x ce\<rfloor>"
    define ay where "ay = \<lfloor>pt_y cs\<rfloor>"
    define by' where "by' = \<lfloor>pt_y ce\<rfloor>"
    have x: "pt_x cs = of_int ax" "0 \<le> ax" "ax \<le> int (bm_width off)"
            "pt_x ce = of_int bx" "0 \<le> bx" "bx \<le> int (bm_width off)"
      using w by (auto simp: wholePixelSelection_def wholeWithin_def ax_def bx_def le_floor_iff floor_le_iff)
    have y: "pt_y cs = of_int ay" "0 \<le> ay" "ay \<le> int (bm_height off)"
            "pt_y ce = of_int by'" "0 \<le> by'" "by' \<le> int (bm_height off)"
      using w by (auto simp: wholePixelSelection_def wholeWithin_def ay_def by'_def le_floor_iff floor_le_iff)
    have "clampedSourceExtent (pt_x cs) (pt_x ce) (bm_width off) (bm_width off) = \<bar>bx - ax\<bar>"
      using nz(1) p x big(1) by (intro unit_scale_extent) (simp_all add: pixelSizes_def)
    then have "sourceW = \<bar>bx - ax\<bar>" using W by (simp add: eq)
    moreover
    have "clampedSourceExtent (pt_y cs) (pt_y ce) (bm_height off) (bm_height off) = \<bar>by' - ay\<bar>"
      using nz(2) p y big(2) by (intro unit_scale_extent) (simp_all add: pixelSizes_def)
    then have "sourceH = \<bar>by' - ay\<bar>" using H by (simp add: eq)
    ultimately show ?thesis by (simp add: x(1,4) y(1,4))
  qed
  show ?thesis using dims pos inW inH unit by blast
qed

theorem completeCrop_dimensions_witness:
  "map_option (\<lambda>c. (int (cv_width c), int (cv_height c)))
     (canvas (snd (completeCrop (cropScenario [] False \<lparr>pt_x = 100, pt_y = 100\<rparr> \<lparr>pt_x = 300, pt_y = 250\<rparr>))))
     = Some (200, 150)
   \<and> map_option (\<lambda>b. (int (bm_width b), int (bm_height b)))
     (offscreenCanvas (snd (completeCrop (cropScenario [] False \<lparr>pt_x = 100, pt_y = 100\<rparr> \<lparr>pt_x = 300, pt_y = 250\<rparr>))))
     = Some (200, 150)
   \<and> wholePixelSelection \<lparr>pt_x = 100, pt_y = 100\<rparr> \<lparr>pt_x = 300, pt_y = 250\<rparr>
        (drawImageRegion (sampleImage False) 0 0 800 600)
   \<and> pixelSizes (sampleImage False) (drawImageRegion (sampleImage False) 0 0 800 600)
   \<and> map_option (\<lambda>b. (int (bm_width b), int (bm_height b)))
     (offscreenCanvas (snd (completeCrop (recropScenario [] \<lparr>pt_x = 10, pt_y = 21\<rparr> \<lparr>pt_x = 110, pt_y = 77\<rparr>))))
     = Some (200, 300)
   \<and> map_option (\<lambda>c. (int (cv_width c), int (cv_height c)))
     (canvas (snd (completeCrop (recropScenario [] \<lparr>pt_x = 10, pt_y = 0\<rparr> \<lparr>pt_x = 110, pt_y = 21\<rparr>))))
     = Some (200, 112)
   \<and> map_option (\<lambda>b. (int (bm_width b), int (bm_height b)))
     (offscreenCanvas (snd (completeCrop (recropScenario [] \<lparr>pt_x = 1201 / 4, pt_y = 21\<rparr> \<lparr>pt_x = 400, pt_y = 77\<rparr>))))
     = Some (199, 300)"
  using completeCrop_dimensions [OF scenario_completed scenario_fields(1-4) refl refl refl refl, of "[]"]
        completeCrop_dimensions [OF recrop_completed(1) recrop_fields(1-4) refl refl refl refl, of "[]"]
        completeCrop_dimensions [OF recrop_completed(2) recrop_fields(1-4) refl refl refl refl, of "[]"]
        completeCrop_dimensions [OF recrop_completed(3) recrop_fields(1-4) refl refl refl refl, of "[]"]
  by (simp add: scenario_fields recrop_fields sample_selections sample_scales
        spec_sourceOrigin_def spec_sourceSize_def Math_round_def fl64_samples
        wholePixelSelection_def wholeWithin_def pixelSizes_def)

text \<open>
  Claim C2.  Every element that survives a completed crop is the image of an element of
  the old list under the re-projection formula of the specification:
  \<open>newX = round (x * scaleX - sourceX)\<close>, \<open>newY = round (y * scaleY - sourceY)\<close>,
  \<open>newWidth = round (width * scaleX)\<close>, \<open>newHeight = round (height * scaleY)\<close>, every
  operation in binary64, with identifier, type and colour unchanged.  For an element that
  lies entirely inside the crop rectangle (image and canvas at most \<open>2 ^ 26\<close> pixels wide
  and high) the new integer coordinates are those of the manual computation, which scales,
  rounds to whole pixels and then translates by the whole-pixel crop origin.
\<close>

theorem completeCrop_reprojection:
  assumes "fst (completeCrop st) = CropCompleted"
    and "cropStart st = Some cs" "cropEnd st = Some ce"
    and "originalImage st = Some img" "offscreenCanvas st = Some off"
    and "e' \<in> set (annotationElements (snd (completeCrop st)))"
    and "scaleX = spec_scale (naturalWidth img) (bm_width off)"
    and "scaleY = spec_scale (naturalHeight img) (bm_height off)"
    and "sourceX = spec_sourceOrigin (clampedStart (pt_x cs) (pt_x ce) (bm_width off)) scaleX (naturalWidth img)"
    and "sourceY = spec_sourceOrigin (clampedStart (pt_y cs) (pt_y ce) (bm_height off)) scaleY (naturalHeight img)"
  shows "\<exists>e \<in> set (annotationElements st).
           e' = spec_reproject scaleX scaleY sourceX sourceY e
         \<and> (insideSelection cs ce off e \<and> pixelSizes img off \<longrightarrow>
              (\<lfloor>el_x e'\<rfloor>, \<lfloor>el_y e'\<rfloor>, \<lfloor>el_width e'\<rfloor>, \<lfloor>el_height e'\<rfloor>)
                = manualReproject scaleX scaleY sourceX sourceY e)"
proof -
  from completeCrop_Completed_result [OF assms(1-5)]
  obtain s where s: "cropTry cs ce img off st = Inr s" and r: "snd (completeCrop st) = resetCropState s"
    and nz: "bm_width off \<noteq> 0" "bm_height off \<noteq> 0"
    by blast
  have sx: "clampedSourceStart (pt_x cs) (pt_x ce) (bm_width off) (naturalWidth img) = sourceX"
    and sy: "clampedSourceStart (pt_y cs) (pt_y ce) (bm_height off) (naturalHeight img) = sourceY"
    by (simp_all add: clampedSourceStart_spec assms(7-10))
  from assms(6) obtain e where e: "e \<in> set (annotationElements st)"
    and e': "e' = spec_reproject scaleX scaleY sourceX sourceY e"
    using cropTry_Inr(1) [OF s]
    by (auto simp: r sx sy adjustElement_spec scaleOf_spec assms(7,8))
  have manual: "(\<lfloor>el_x e'\<rfloor>, \<lfloor>el_y e'\<rfloor>, \<lfloor>el_width e'\<rfloor>, \<lfloor>el_height e'\<rfloor>)
                  = manualReproject scaleX scaleY sourceX sourceY e"
    if ins: "insideSelection cs ce off e" and p: "pixelSizes img off"
  proof -
    let ?x0 = "clampedStart (pt_x cs) (pt_x ce) (bm_width off)"
    let ?y0 = "clampedStart (pt_y cs) (pt_y ce) (bm_height off)"
    have cw: "0 < bm_width off" "bm_width off \<le> 2 ^ 26" "naturalWidth img \<le> 2 ^ 26"
      and ch: "0 < bm_height off" "bm_height off \<le> 2 ^ 26" "naturalHeight img \<le> 2 ^ 26"
      using nz p by (simp_all add: pixelSizes_def)
    have rw: "real (bm_width off) \<le> 2 ^ 26" and rh: "real (bm_height off) \<le> 2 ^ 26"
      using cw(2) ch(2) by (metis of_nat_le_iff of_nat_numeral of_nat_power)+
    have "el_x e \<le> ?x0 + clampedExtent (pt_x cs) (pt_x ce) (bm_width off)"
      using ins by (simp add: insideSelection_def)
    then have xb: "el_x e \<le> 2 ^ 27"
      using clampedStart_range [of "pt_x cs" "pt_x ce" "bm_width off"]
            clampedExtent_le [OF cw(1,2), of "pt_x cs" "pt_x ce"] rw
      by simp
    have "el_y e \<le> ?y0 + clampedExtent (pt_y cs) (pt_y ce) (bm_height off)"
      using ins by (simp add: insideSelection_def)
    then have yb: "el_y e \<le> 2 ^ 27"
      using clampedStart_range [of "pt_y cs" "pt_y ce" "bm_height off"]
            clampedExtent_le [OF ch(1,2), of "pt_y cs" "pt_y ce"] rh
      by simp
    have x0: "0 \<le> ?x0" "?x0 \<le> el_x e" and y0: "0 \<le> ?y0" "?y0 \<le> el_y e"
      using ins clampedStart_range [of "pt_x cs" "pt_x ce" "bm_width off"]
            clampedStart_range [of "pt_y cs" "pt_y ce" "bm_height off"]
      by (simp_all add: insideSelection_def)
    have X: "Math_round (fl64 (fl64 (el_x e * scaleX) - of_int sourceX))
               = Math_round (fl64 (el_x e * scaleX)) - sourceX"
      using spec_scale_range [OF cw(1,3)] x0 xb assms(9) unfolding assms(7) [symmetric]
      by (rule reproject_axis)
    have Y: "Math_round (fl64 (fl64 (el_y e * scaleY) - of_int sourceY))
               = Math_round (fl64 (el_y e * scaleY)) - sourceY"
      using spec_scale_range [OF ch(1,3)] y0 yb assms(10) unfolding assms(8) [symmetric]
      by (rule reproject_axis)
    show ?thesis
      by (simp add: e' spec_reproject_def manualReproject_def X Y)
  qed
  show ?thesis
    using e e' manual by blast
qed

theorem completeCrop_reprojection_witness:
  "rectElement ''anno-1'' 20 49 20 54
     \<in> set (annotationElements (snd (completeCrop
           (recropScenario [rectElement ''anno-1'' 20 30 10 10]
              \<lparr>pt_x = 10, pt_y = 21\<rparr> \<lparr>pt_x = 110, pt_y = 77\<rparr>))))
   \<and> insideSelection \<lparr>pt_x = 10, pt_y = 21\<rparr> \<lparr>pt_x = 110, pt_y = 77\<rparr>
        (drawImageRegion (sampleImage False) 100 100 400 112) (rectElement ''anno-1'' 20 30 10 10)
   \<and> pixelSizes (sampleImage False) (drawImageRegion (sampleImage False) 100 100 400 112)
   \<and> spec_reproject (spec_scale 800 400) (spec_scale 600 112) 20 112 (rectElement ''anno-1'' 20 30 10 10)
       = rectElement ''anno-1'' 20 49 20 54
   \<and> manualReproject (spec_scale 800 400) (spec_scale 600 112) 20 112 (rectElement ''anno-1'' 20 30 10 10)
       = (20, 49, 20, 54)"
proof -
  let ?st = "recropScenario [rectElement ''anno-1'' 20 30 10 10]
               \<lparr>pt_x = 10, pt_y = 21\<rparr> \<lparr>pt_x = 110, pt_y = 77\<rparr>"
  have m: "rectElement ''anno-1'' 20 49 20 54 \<in> set (annotationElements (snd (completeCrop ?st)))"
    by (simp add: recrop_elements recrop_samples)
  show ?thesis
    using completeCrop_reprojection [OF recrop_completed(1) recrop_fields(1-4) m refl refl refl refl] m
    by (simp add: recrop_fields scenario_fields sample_selections sample_scales
          spec_sourceOrigin_def Math_round_def fl64_samples spec_reproject_def manualReproject_def
          rectElement_def insideSelection_def pixelSizes_def)
qed

text \<open>
  Claim C1, as amended.  After a completed crop the element list is the re-projected old
  list filtered by \<open>keepElement\<close>: a re-projected element of positive width and height
  is kept exactly when its bounds intersect \<open>[0, newW) \<times> [0, newH)\<close>, and a kept element
  carries its re-projected bounds as they are, without clamping to the bitmap.  When
  every re-projected element has positive width and height, the new list consists of
  exactly the re-projected elements that intersect the new bitmap, in the old order.
\<close>

theorem completeCrop_element_filter:
  assumes "fst (completeCrop st) = CropCompleted"
    and "cropStart st = Some cs" "cropEnd st = Some ce"
    and "originalImage st = Some img" "offscreenCanvas st = Some off"
    and "scaleX = spec_scale (naturalWidth img) (bm_width off)"
    and "scaleY = spec_scale (naturalHeight img) (bm_height off)"
    and "sourceX = spec_sourceOrigin (clampedStart (pt_x cs) (pt_x ce) (bm_width off)) scaleX (naturalWidth img)"
    and "sourceY = spec_sourceOrigin (clampedStart (pt_y cs) (pt_y ce) (bm_height off)) scaleY (naturalHeight img)"
    and "newW = spec_sourceSize (clampedExtent (pt_x cs) (pt_x ce) (bm_width off)) scaleX (naturalWidth img) sourceX"
    and "newH = spec_sourceSize (clampedExtent (pt_y cs) (pt_y ce) (bm_height off)) scaleY (naturalHeight img) sourceY"
    and "reproject = spec_reproject scaleX scaleY sourceX sourceY"
  shows "annotationElements (snd (completeCrop st))
           = filter (keepElement newW newH) (map reproject (annotationElements st))
       \<and> (\<forall>e \<in> set (annotationElements st).
            0 < el_width (reproject e) \<and> 0 < el_height (reproject e) \<longrightarrow>
              (reproject e \<in> set (annotationElements (snd (completeCrop st)))
                 \<longleftrightarrow> boundsIntersect newW newH (reproject e)))
       \<and> ((\<forall>e \<in> set (annotationElements st). 0 < el_width (reproject e) \<and> 0 < el_height (reproject e))
            \<longrightarrow> annotationElements (snd (completeCrop st))
                  = filter (boundsIntersect newW newH) (map reproject (annotationElements st)))"
proof -
  have els: "annotationElements (snd (completeCrop st))
           = filter (keepElement newW newH) (map reproject (annotationElements st))"
    using completeCrop_Completed_elements [OF assms(1-5)]
    by (simp add: assms(6-12) clampedSourceExtent_spec clampedSourceStart_spec scaleOf_spec
          adjustElement_spec)
  have pos: "0 < newW" "0 < newH"
    using spec_sourceSize_range(1) [of "clampedExtent (pt_x cs) (pt_x ce) (bm_width off)" scaleX
            "naturalWidth img" sourceX]
          spec_sourceSize_range(1) [of "clampedExtent (pt_y cs) (pt_y ce) (bm_height off)" scaleY
            "naturalHeight img" sourceY]
    by (simp_all add: assms(10,11))
  have keep: "keepElement newW newH (reproject e) \<longleftrightarrow> boundsIntersect newW newH (reproject e)"
    if "0 < el_width (reproject e)" "0 < el_height (reproject e)" for e
  proof -
    let ?x = "Math_round (fl64 (fl64 (el_x e * scaleX) - of_int sourceX))"
    let ?y = "Math_round (fl64 (fl64 (el_y e * scaleY) - of_int sourceY))"
    let ?w = "Math_round (fl64 (el_width e * scaleX))"
    let ?h = "Math_round (fl64 (el_height e * scaleY))"
    have c: "el_x (reproject e) = of_int ?x" "el_y (reproject e) = of_int ?y"
      "el_width (reproject e) = of_int ?w" "el_height (reproject e) = of_int ?h"
      by (simp_all add: assms(12) spec_reproject_def)
    have "0 < ?w" "0 < ?h" using that by (simp_all add: c)
    then show ?thesis using pos by (intro keepElement_iff_intersect [OF c])
  qed
  have mem: "reproject e \<in> set (annotationElements (snd (completeCrop st)))
          \<longleftrightarrow> boundsIntersect newW newH (reproject e)"
    if "e \<in> set (annotationElements st)" "0 < el_width (reproject e)" "0 < el_height (reproject e)"
    for e
  proof -
    have "reproject e \<in> set (annotationElements (snd (completeCrop st)))
            \<longleftrightarrow> keepElement newW newH (reproject e)"
      using that(1) by (auto simp: els)
    then show ?thesis using keep [OF that(2,3)] by simp
  qed
  have all: "annotationElements (snd (completeCrop st))
               = filter (boundsIntersect newW newH) (map reproject (annotationElements st))"
    if "\<forall>e \<in> set (annotationElements st). 0 < el_width (reproject e) \<and> 0 < el_height (reproject e)"
    unfolding els using that keep by (intro filter_cong refl) auto
  from els mem all show ?thesis by blast
qed

theorem completeCrop_element_filter_witness:
  "annotationElements (snd (completeCrop
      (cropScenario [rectElement ''anno-1'' 50 50 20 20, rectElement ''anno-2'' 150 150 20 20] False
         \<lparr>pt_x = 100, pt_y = 100\<rparr> \<lparr>pt_x = 300, pt_y = 250\<rparr>)))
     = [rectElement ''anno-2'' 50 50 20 20]
   \<and> \<not> boundsIntersect 200 150 (rectElement ''anno-1'' (-50) (-50) 20 20)
   \<and> boundsIntersect 200 150 (rectElement ''anno-2'' 50 50 20 20)
   \<and> annotationElements (snd (completeCrop
      (recropScenario [rectElement ''anno-1'' 20 30 10 10, rectElement ''anno-2'' 20 (9 / 8) 10 20,
                       rectElement ''anno-3'' 0 0 5 3]
         \<lparr>pt_x = 10, pt_y = 21\<rparr> \<lparr>pt_x = 110, pt_y = 77\<rparr>)))
     = [rectElement ''anno-1'' 20 49 20 54, rectElement ''anno-2'' 20 (- 106) 20 107]
   \<and> boundsIntersect 200 300 (rectElement ''anno-1'' 20 49 20 54)
   \<and> boundsIntersect 200 300 (rectElement ''anno-2'' 20 (- 106) 20 107)
   \<and> \<not> boundsIntersect 200 300 (rectElement ''anno-3'' (- 20) (- 112) 10 16)"
  using completeCrop_element_filter [OF scenario_completed scenario_fields(1-4) refl refl refl refl refl refl refl,
          of "[rectElement ''anno-1'' 50 50 20 20, rectElement ''anno-2'' 150 150 20 20]"]
        completeCrop_element_filter [OF recrop_completed(1) recrop_fields(1-4) refl refl refl refl refl refl refl,
          of "[rectElement ''anno-1'' 20 30 10 10, rectElement ''anno-2'' 20 (9 / 8) 10 20,
               rectElement ''anno-3'' 0 0 5 3]"]
  by (simp add: scenario_fields recrop_fields sample_selections sample_scales
        spec_sourceOrigin_def spec_sourceSize_def spec_reproject_def Math_round_def fl64_samples
        rectElement_def keepElement_def boundsIntersect_def)

text \<open>
  An element that overlaps the crop rectangle only in part is kept with bounds that reach
  outside the new bitmap: in the 800 by 600 scenario the element at (90, 90, 20, 20)
  becomes (-10, -10, 20, 20).
\<close>

theorem partial_overlap_not_clamped:
  "fst (completeCrop (cropScenario [rectElement ''anno-1'' 90 90 20 20] False
         \<lparr>pt_x = 100, pt_y = 100\<rparr> \<lparr>pt_x = 300, pt_y = 250\<rparr>)) = CropCompleted
   \<and> annotationElements (snd (completeCrop (cropScenario [rectElement ''anno-1'' 90 90 20 20] False
         \<lparr>pt_x = 100, pt_y = 100\<rparr> \<lparr>pt_x = 300, pt_y = 250\<rparr>)))
       = [rectElement ''anno-1'' (-10) (-10) 20 20]
   \<and> boundsIntersect 200 150 (rectElement ''anno-1'' (-10) (-10) 20 20)
   \<and> \<not> clampedToBitmap 200 150 (rectElement ''anno-1'' (-10) (-10) 20 20)"
  by (simp add: scenario_completed scenario_elements adjust_samples keep_samples)
     (simp add: boundsIntersect_def clampedToBitmap_def rectElement_def)

subsection \<open>Failure of a crop\<close>

text \<open>
  Claim C4, as amended.  When \<open>completeCrop\<close> rejects the selection (prerequisites not
  met, zero canvas size, or a clamped selection with \<open>w \<le> 1\<close> or \<open>h \<le> 1\<close>) the
  document is unchanged: working bitmap, element list, original image and canvas size.
  A selection with \<open>w \<le> 1\<close> or \<open>h \<le> 1\<close> is always rejected.  When an exception is
  raised inside the pipeline the element list and the original image are unchanged; the
  working bitmap is not covered, since the canvases are resized before the draw.
\<close>

theorem completeCrop_failure_effects:
  "(fst (completeCrop st) \<in> {PrerequisitesNotMet, InvalidDimensions, CropTooSmall} \<longrightarrow>
       offscreenCanvas (snd (completeCrop st)) = offscreenCanvas st
     \<and> annotationElements (snd (completeCrop st)) = annotationElements st
     \<and> originalImage (snd (completeCrop st)) = originalImage st
     \<and> map_option cv_width (canvas (snd (completeCrop st))) = map_option cv_width (canvas st)
     \<and> map_option cv_height (canvas (snd (completeCrop st))) = map_option cv_height (canvas st))
   \<and> (fst (completeCrop st) = CropFailed \<longrightarrow>
       annotationElements (snd (completeCrop st)) = annotationElements st
     \<and> originalImage (snd (completeCrop st)) = originalImage st)
   \<and> (cropStart st = Some cs \<and> cropEnd st = Some ce \<and> originalImage st = Some img
       \<and> offscreenCanvas st = Some off \<and> isToolActive Crop st
       \<and> bm_width off \<noteq> 0 \<and> bm_height off \<noteq> 0
       \<and> (clampedExtent (pt_x cs) (pt_x ce) (bm_width off) \<le> 1
          \<or> clampedExtent (pt_y cs) (pt_y ce) (bm_height off) \<le> 1)
       \<longrightarrow> fst (completeCrop st) = CropTooSmall)"
proof (intro conjI impI)
  assume "fst (completeCrop st) \<in> {PrerequisitesNotMet, InvalidDimensions, CropTooSmall}"
  then have r: "snd (completeCrop st) = resetCropState st"
    by (auto simp: completeCrop_def split: option.splits if_splits sum.splits)
  show "offscreenCanvas (snd (completeCrop st)) = offscreenCanvas st"
    "annotationElements (snd (completeCrop st)) = annotationElements st"
    "originalImage (snd (completeCrop st)) = originalImage st"
    "map_option cv_width (canvas (snd (completeCrop st))) = map_option cv_width (canvas st)"
    "map_option cv_height (canvas (snd (completeCrop st))) = map_option cv_height (canvas st)"
    by (simp_all add: r)
next
  assume "fst (completeCrop st) = CropFailed"
  then obtain cs ce img off s where s: "cropTry cs ce img off st = Inl s"
    and r: "snd (completeCrop st) = resetCropState (redrawCanvas s)"
    by (auto simp: completeCrop_def split: option.splits if_splits sum.splits)
  show "annotationElements (snd (completeCrop st)) = annotationElements st"
    "originalImage (snd (completeCrop st)) = originalImage st"
    using cropTry_Inl [OF s] by (simp_all add: r)
next
  assume "cropStart st = Some cs \<and> cropEnd st = Some ce \<and> originalImage st = Some img
       \<and> offscreenCanvas st = Some off \<and> isToolActive Crop st
       \<and> bm_width off \<noteq> 0 \<and> bm_height off \<noteq> 0
       \<and> (clampedExtent (pt_x cs) (pt_x ce) (bm_width off) \<le> 1
          \<or> clampedExtent (pt_y cs) (pt_y ce) (bm_height off) \<le> 1)"
  then show "fst (completeCrop st) = CropTooSmall"
    by (auto simp: completeCrop_def)
qed

lemma scenario_failed:
  "fst (completeCrop (cropScenario els True \<lparr>pt_x = 100, pt_y = 100\<rparr> \<lparr>pt_x = 300, pt_y = 250\<rparr>)) = CropFailed"
  "offscreenCanvas (snd (completeCrop (cropScenario els True \<lparr>pt_x = 100, pt_y = 100\<rparr> \<lparr>pt_x = 300, pt_y = 250\<rparr>)))
     = Some (blank black 200 150)"
  using completeCrop_outcome_Failed
          [where st = "cropScenario els True \<lparr>pt_x = 100, pt_y = 100\<rparr> \<lparr>pt_x = 300, pt_y = 250\<rparr>"
             and cs = "\<lparr>pt_x = 100, pt_y = 100\<rparr>" and ce = "\<lparr>pt_x = 300, pt_y = 250\<rparr>"
             and img = "sampleImage True" and off = "drawImageRegion (sampleImage True) 0 0 800 600"
             and c = "\<lparr>cv_width = 800, cv_height = 600, cv_content = []\<rparr>"]
  by (simp_all add: scenario_fields scenario_geometry)

theorem completeCrop_failure_effects_witness:
  "fst (completeCrop (cropScenario [rectElement ''anno-1'' 50 50 20 20] False
          \<lparr>pt_x = 100, pt_y = 100\<rparr> \<lparr>pt_x = 101, pt_y = 101\<rparr>)) = CropTooSmall
   \<and> annotationElements (snd (completeCrop (cropScenario [rectElement ''anno-1'' 50 50 20 20] False
          \<lparr>pt_x = 100, pt_y = 100\<rparr> \<lparr>pt_x = 101, pt_y = 101\<rparr>)))
       = [rectElement ''anno-1'' 50 50 20 20]
   \<and> offscreenCanvas (snd (completeCrop (cropScenario [rectElement ''anno-1'' 50 50 20 20] False
          \<lparr>pt_x = 100, pt_y = 100\<rparr> \<lparr>pt_x = 101, pt_y = 101\<rparr>)))
       = Some (drawImageRegion (sampleImage False) 0 0 800 600)
   \<and> annotationElements (snd (completeCrop (cropScenario [rectElement ''anno-1'' 50 50 20 20] True
          \<lparr>pt_x = 100, pt_y = 100\<rparr> \<lparr>pt_x = 300, pt_y = 250\<rparr>)))
       = [rectElement ''anno-1'' 50 50 20 20]"
proof -
  let ?tiny = "cropScenario [rectElement ''anno-1'' 50 50 20 20] False
          \<lparr>pt_x = 100, pt_y = 100\<rparr> \<lparr>pt_x = 101, pt_y = 101\<rparr>"
  let ?broken = "cropScenario [rectElement ''anno-1'' 50 50 20 20] True
          \<lparr>pt_x = 100, pt_y = 100\<rparr> \<lparr>pt_x = 300, pt_y = 250\<rparr>"
  have small: "fst (completeCrop ?tiny) = CropTooSmall"
    using completeCrop_failure_effects [of ?tiny "\<lparr>pt_x = 100, pt_y = 100\<rparr>"
            "\<lparr>pt_x = 101, pt_y = 101\<rparr>" "sampleImage False"
            "drawImageRegion (sampleImage False) 0 0 800 600"]
    by (simp add: scenario_fields scenario_tiny_geometry)
  show ?thesis
    using completeCrop_failure_effects [of ?tiny] completeCrop_failure_effects [of ?broken]
    by (simp add: small scenario_failed scenario_fields)
qed

text \<open>
  A draw failure leaves the working bitmap resized: in the 800 by 600 scenario with an
  image on which \<open>drawImage\<close> raises, the crop fails and the offscreen canvas is
  200 by 150 afterwards.
\<close>

theorem draw_failure_resizes_bitmap:
  "fst (completeCrop (cropScenario [] True \<lparr>pt_x = 100, pt_y = 100\<rparr> \<lparr>pt_x = 300, pt_y = 250\<rparr>)) = CropFailed
   \<and> map_option bm_width
        (offscreenCanvas (cropScenario [] True \<lparr>pt_x = 100, pt_y = 100\<rparr> \<lparr>pt_x = 300, pt_y = 250\<rparr>))
       = Some 800
   \<and> map_option bm_height
        (offscreenCanvas (cropScenario [] True \<lparr>pt_x = 100, pt_y = 100\<rparr> \<lparr>pt_x = 300, pt_y = 250\<rparr>))
       = Some 600
   \<and> offscreenCanvas (snd (completeCrop (cropScenario [] True \<lparr>pt_x = 100, pt_y = 100\<rparr> \<lparr>pt_x = 300, pt_y = 250\<rparr>)))
       = Some (blank black 200 150)"
  by (simp add: scenario_failed scenario_fields)

subsection \<open>Tool exclusivity\<close>

lemma setToolActive_active [simp]:
  "isToolActive u (setToolActive t b st) = (if u = t then b else isToolActive u st)"
  by (simp add: isToolActive_def setToolActive_def)

lemma redrawCanvas_active [simp]: "isToolActive u (redrawCanvas st) = isToolActive u st"
  by (simp add: isToolActive_def)

lemma setToolActive_shown [simp]: "toolShown (setToolActive t b st) = toolShown st"
  by (simp add: setToolActive_def)

text \<open>
  Claim C7.  Every \<open>toggleTool\<close> transition preserves that crop and annotate are not
  both active; activating a drawing tool leaves exactly that drawing tool active; and
  toggling annotate while crop is active leaves annotate active and crop inactive.  (A
  toggle activates only when the tool's toolbar element is present and not hidden;
  otherwise \<open>toggleTool\<close> returns without effect.)
\<close>

theorem toggleTool_exclusive:
  "(drawingToolsExclusive st \<longrightarrow> drawingToolsExclusive (toggleTool t st))
   \<and> (t \<in> set drawingTools \<and> toolShown st t \<and> \<not> isToolActive t st \<longrightarrow>
        (\<forall>u \<in> set drawingTools. isToolActive u (toggleTool t st) \<longleftrightarrow> u = t))
   \<and> (drawingToolsExclusive st \<and> isToolActive Crop st \<and> toolShown st Annotate \<longrightarrow>
        isToolActive Annotate (toggleTool Annotate st) \<and> \<not> isToolActive Crop (toggleTool Annotate st))"
  by (cases t) (auto simp: toggleTool_def drawingToolsExclusive_def drawingTools_def Let_def)

theorem toggleTool_exclusive_witness:
  "isToolActive Annotate (toggleTool Annotate
     (cropScenario [] False \<lparr>pt_x = 100, pt_y = 100\<rparr> \<lparr>pt_x = 300, pt_y = 250\<rparr>))
   \<and> \<not> isToolActive Crop (toggleTool Annotate
     (cropScenario [] False \<lparr>pt_x = 100, pt_y = 100\<rparr> \<lparr>pt_x = 300, pt_y = 250\<rparr>))
   \<and> drawingToolsExclusive (toggleTool Annotate
     (cropScenario [] False \<lparr>pt_x = 100, pt_y = 100\<rparr> \<lparr>pt_x = 300, pt_y = 250\<rparr>))"
  using toggleTool_exclusive [of "cropScenario [] False \<lparr>pt_x = 100, pt_y = 100\<rparr> \<lparr>pt_x = 300, pt_y = 250\<rparr>" Annotate]
  by (simp add: drawingToolsExclusive_def isToolActive_def cropScenario_def drawingTools_def)

subsection \<open>Display to bitmap coordinates\<close>

text \<open>
  Claim C8.  With the canvas present, \<open>getMousePos\<close> returns
  \<open>((clientX - left) * bitmapWidth / rectWidth, (clientY - top) * bitmapHeight / rectHeight)\<close>
  clamped componentwise to \<open>[0, bitmapWidth] \<times> [0, bitmapHeight]\<close>, and a display
  rectangle of zero width or height gives the scale factor 1 on that axis.
\<close>

theorem getMousePos_mapping:
  assumes "canvas st = Some c" and "rect = usedRect st"
  shows "\<exists>p. fst (getMousePos e st) = Some p
     \<and> pt_x p = max 0 (min ((clientX e - r_left rect)
                  * (if r_width rect = 0 then 1 else real (cv_width c) / r_width rect)) (real (cv_width c)))
     \<and> pt_y p = max 0 (min ((clientY e - r_top rect)
                  * (if r_height rect = 0 then 1 else real (cv_height c) / r_height rect)) (real (cv_height c)))
     \<and> 0 \<le> pt_x p \<and> pt_x p \<le> real (cv_width c) \<and> 0 \<le> pt_y p \<and> pt_y p \<le> real (cv_height c)"
  using assms
  by (cases "canvasRect st")
     (simp_all add: getMousePos_def updateCanvasRect_def usedRect_def Let_def)

theorem getMousePos_mapping_witness:
  "fst (getMousePos \<lparr>clientX = 110, clientY = 70, button = 0\<rparr>
     ((cropScenario [] False \<lparr>pt_x = 0, pt_y = 0\<rparr> \<lparr>pt_x = 0, pt_y = 0\<rparr>)
        \<lparr>canvasRect := Some \<lparr>r_left = 10, r_top = 20, r_width = 400, r_height = 300\<rparr>\<rparr>))
     = Some \<lparr>pt_x = 200, pt_y = 100\<rparr>
   \<and> fst (getMousePos \<lparr>clientX = 110, clientY = 70, button = 0\<rparr>
     ((cropScenario [] False \<lparr>pt_x = 0, pt_y = 0\<rparr> \<lparr>pt_x = 0, pt_y = 0\<rparr>)
        \<lparr>canvasRect := Some \<lparr>r_left = 10, r_top = 20, r_width = 0, r_height = 0\<rparr>\<rparr>))
     = Some \<lparr>pt_x = 100, pt_y = 50\<rparr>"
  using getMousePos_mapping
          [of "(cropScenario [] False \<lparr>pt_x = 0, pt_y = 0\<rparr> \<lparr>pt_x = 0, pt_y = 0\<rparr>)
                 \<lparr>canvasRect := Some \<lparr>r_left = 10, r_top = 20, r_width = 400, r_height = 300\<rparr>\<rparr>"
              "\<lparr>cv_width = 800, cv_height = 600, cv_content = []\<rparr>"
              "\<lparr>r_left = 10, r_top = 20, r_width = 400, r_height = 300\<rparr>"
              "\<lparr>clientX = 110, clientY = 70, button = 0\<rparr>"]
        getMousePos_mapping
          [of "(cropScenario [] False \<lparr>pt_x = 0, pt_y = 0\<rparr> \<lparr>pt_x = 0, pt_y = 0\<rparr>)
                 \<lparr>canvasRect := Some \<lparr>r_left = 10, r_top = 20, r_width = 0, r_height = 0\<rparr>\<rparr>"
              "\<lparr>cv_width = 800, cv_height = 600, cv_content = []\<rparr>"
              "\<lparr>r_left = 10, r_top = 20, r_width = 0, r_height = 0\<rparr>"
              "\<lparr>clientX = 110, clientY = 70, button = 0\<rparr>"]
  by (auto simp: scenario_fields usedRect_def)

subsection \<open>Export\<close>

lemma over_white_transparent [simp]: "over white transparent = white"
  by (simp add: over_def white_def transparent_def)

lemma fold_fillRect_dims:
  "bm_width (fold (\<lambda>e c. if el_type e = ''rect''
        then fillRect col (Math_round (el_x e)) (Math_round (el_y e))
               (Math_round (el_width e)) (Math_round (el_height e)) c
        else c) els c0) = bm_width c0
   \<and> bm_height (fold (\<lambda>e c. if el_type e = ''rect''
        then fillRect col (Math_round (el_x e)) (Math_round (el_y e))
               (Math_round (el_width e)) (Math_round (el_height e)) c
        else c) els c0) = bm_height c0"
  by (induction els arbitrary: c0) (simp_all add: fillRect_def)

text \<open>
  Claim C9.  With a valid working bitmap and an empty element list (the state right after
  load, before any crop or annotation), the export canvas has the dimensions of the
  working bitmap and every pixel is the working bitmap's pixel composited over opaque
  white.
\<close>

theorem export_roundtrip:
  assumes "offscreenCanvas st = Some off" and "bm_width off \<noteq> 0" and "bm_height off \<noteq> 0"
    and "annotationElements st = []"
  shows "bm_width (prepareFinalCanvas st) = bm_width off
       \<and> bm_height (prepareFinalCanvas st) = bm_height off
       \<and> (\<forall>i < bm_width off. \<forall>j < bm_height off.
             bm_px (prepareFinalCanvas st) i j = over (bm_px off i j) white)"
  using assms
  by (simp add: prepareFinalCanvas_def Let_def drawCanvasAtOrigin_def fillRect_def blank_def)

theorem export_roundtrip_witness:
  "bm_width (prepareFinalCanvas ((cropScenario [] False \<lparr>pt_x = 0, pt_y = 0\<rparr> \<lparr>pt_x = 0, pt_y = 0\<rparr>)
      \<lparr>offscreenCanvas := Some checker\<rparr>)) = 2
   \<and> bm_height (prepareFinalCanvas ((cropScenario [] False \<lparr>pt_x = 0, pt_y = 0\<rparr> \<lparr>pt_x = 0, pt_y = 0\<rparr>)
      \<lparr>offscreenCanvas := Some checker\<rparr>)) = 2
   \<and> bm_px (prepareFinalCanvas ((cropScenario [] False \<lparr>pt_x = 0, pt_y = 0\<rparr> \<lparr>pt_x = 0, pt_y = 0\<rparr>)
      \<lparr>offscreenCanvas := Some checker\<rparr>)) 1 1 = \<lparr>ch_r = 1, ch_g = 0, ch_b = 0, ch_a = 1\<rparr>
   \<and> bm_px (prepareFinalCanvas ((cropScenario [] False \<lparr>pt_x = 0, pt_y = 0\<rparr> \<lparr>pt_x = 0, pt_y = 0\<rparr>)
      \<lparr>offscreenCanvas := Some checker\<rparr>)) 0 1 = black"
  using export_roundtrip [of "(cropScenario [] False \<lparr>pt_x = 0, pt_y = 0\<rparr> \<lparr>pt_x = 0, pt_y = 0\<rparr>)
      \<lparr>offscreenCanvas := Some checker\<rparr>" checker]
  by (simp add: scenario_fields checker_def over_def white_def black_def)

text \<open>
  Claim C10, as amended.  \<open>prepareFinalCanvas\<close> has no failing path: with the offscreen
  canvas absent or of zero width or height it returns a 1 by 1 canvas with nothing drawn,
  otherwise a canvas of the offscreen canvas's dimensions.  \<open>saveImage\<close> and
  \<open>copyToClipboard\<close> reach it only when the visible canvas is present and not empty
  (and no crop drag is in progress); then an invalid offscreen canvas yields the 1 by 1
  image.  With the visible canvas absent or empty they refuse and compose nothing.
\<close>

theorem prepareFinalCanvas_fallback:
  "(offscreenInvalid st \<longrightarrow> prepareFinalCanvas st = blank transparent 1 1)
   \<and> (offscreenCanvas st = Some off \<and> bm_width off \<noteq> 0 \<and> bm_height off \<noteq> 0 \<longrightarrow>
        bm_width (prepareFinalCanvas st) = bm_width off
      \<and> bm_height (prepareFinalCanvas st) = bm_height off)
   \<and> (offscreenInvalid st \<and> \<not> canvasEmpty st \<and> \<not> (isDrawing st \<and> isToolActive Crop st) \<longrightarrow>
        saveImage st = Composed (blank transparent 1 1)
      \<and> copyToClipboard True st = Composed (blank transparent 1 1))
   \<and> (canvasEmpty st \<longrightarrow>
        saveImage st = CannotExportEmpty \<and> copyToClipboard supported st = CannotExportEmpty)"
proof (intro conjI impI)
  assume "offscreenInvalid st"
  then show "prepareFinalCanvas st = blank transparent 1 1"
    by (auto simp: offscreenInvalid_def prepareFinalCanvas_def split: option.splits)
next
  assume "offscreenCanvas st = Some off \<and> bm_width off \<noteq> 0 \<and> bm_height off \<noteq> 0"
  then show "bm_width (prepareFinalCanvas st) = bm_width off"
    "bm_height (prepareFinalCanvas st) = bm_height off"
    by (simp_all add: prepareFinalCanvas_def Let_def fold_fillRect_dims
          drawCanvasAtOrigin_def fillRect_def blank_def)
next
  assume a: "offscreenInvalid st \<and> \<not> canvasEmpty st \<and> \<not> (isDrawing st \<and> isToolActive Crop st)"
  then have p: "prepareFinalCanvas st = blank transparent 1 1"
    by (auto simp: offscreenInvalid_def prepareFinalCanvas_def split: option.splits)
  from a show "saveImage st = Composed (blank transparent 1 1)"
    "copyToClipboard True st = Composed (blank transparent 1 1)"
    by (auto simp: p saveImage_def copyToClipboard_def canvasEmpty_def split: option.splits)
next
  assume "canvasEmpty st"
  then show "saveImage st = CannotExportEmpty" "copyToClipboard supported st = CannotExportEmpty"
    by (auto simp: saveImage_def copyToClipboard_def canvasEmpty_def split: option.splits)
qed

theorem prepareFinalCanvas_fallback_witness:
  "prepareFinalCanvas ((cropScenario [] False \<lparr>pt_x = 0, pt_y = 0\<rparr> \<lparr>pt_x = 0, pt_y = 0\<rparr>)
      \<lparr>offscreenCanvas := None\<rparr>) = blank transparent 1 1
   \<and> saveImage ((cropScenario [] False \<lparr>pt_x = 0, pt_y = 0\<rparr> \<lparr>pt_x = 0, pt_y = 0\<rparr>)
      \<lparr>offscreenCanvas := None\<rparr>) = Composed (blank transparent 1 1)
   \<and> bm_width (prepareFinalCanvas (cropScenario [rectElement ''anno-1'' 50 50 20 20] False
        \<lparr>pt_x = 0, pt_y = 0\<rparr> \<lparr>pt_x = 0, pt_y = 0\<rparr>)) = 800
   \<and> saveImage (cleanup (cropScenario [] False \<lparr>pt_x = 0, pt_y = 0\<rparr> \<lparr>pt_x = 0, pt_y = 0\<rparr>))
       = CannotExportEmpty"
  using prepareFinalCanvas_fallback [of "(cropScenario [] False \<lparr>pt_x = 0, pt_y = 0\<rparr> \<lparr>pt_x = 0, pt_y = 0\<rparr>)
      \<lparr>offscreenCanvas := None\<rparr>"]
    prepareFinalCanvas_fallback [of "cropScenario [rectElement ''anno-1'' 50 50 20 20] False
        \<lparr>pt_x = 0, pt_y = 0\<rparr> \<lparr>pt_x = 0, pt_y = 0\<rparr>" "drawImageRegion (sampleImage False) 0 0 800 600"]
    prepareFinalCanvas_fallback [of "cleanup (cropScenario [] False \<lparr>pt_x = 0, pt_y = 0\<rparr> \<lparr>pt_x = 0, pt_y = 0\<rparr>)"]
  by (simp add: scenario_fields offscreenInvalid_def canvasEmpty_def cleanup_def isToolActive_def
        cropScenario_def)

text \<open>
  After \<open>cleanup\<close> the offscreen canvas is absent, and export and copy do not produce a
  1 by 1 image: both refuse with "Cannot save/copy empty image".
\<close>

theorem export_after_cleanup_refused:
  "offscreenCanvas (cleanup (cropScenario [] False \<lparr>pt_x = 0, pt_y = 0\<rparr> \<lparr>pt_x = 0, pt_y = 0\<rparr>)) = None
   \<and> saveImage (cleanup (cropScenario [] False \<lparr>pt_x = 0, pt_y = 0\<rparr> \<lparr>pt_x = 0, pt_y = 0\<rparr>))
       = CannotExportEmpty
   \<and> copyToClipboard True (cleanup (cropScenario [] False \<lparr>pt_x = 0, pt_y = 0\<rparr> \<lparr>pt_x = 0, pt_y = 0\<rparr>))
       = CannotExportEmpty
   \<and> saveImage (cleanup (cropScenario [] False \<lparr>pt_x = 0, pt_y = 0\<rparr> \<lparr>pt_x = 0, pt_y = 0\<rparr>))
       \<noteq> Composed (blank transparent 1 1)"
  by (simp add: cleanup_def saveImage_def copyToClipboard_def)

subsection \<open>Throttled crop guides\<close>

lemma updateCanvasRect_form: "\<exists>r. updateCanvasRect st = st\<lparr>canvasRect := r\<rparr>"
proof (cases "canvas st")
  case None
  then have "updateCanvasRect st = st\<lparr>canvasRect := canvasRect st\<rparr>"
    by (simp add: updateCanvasRect_def)
  then show ?thesis by blast
next
  case (Some c)
  then have "updateCanvasRect st = st\<lparr>canvasRect := Some (layoutRect st)\<rparr>"
    by (simp add: updateCanvasRect_def)
  then show ?thesis by blast
qed

lemma getMousePos_state:
  assumes "getMousePos e st = (p, st1)"
  shows "\<exists>r. st1 = st\<lparr>canvasRect := r\<rparr>"
proof -
  have "st1 = (if canvasRect st = None then updateCanvasRect st else st)"
    using assms by (auto simp: getMousePos_def Let_def split: option.splits)
  moreover have "st = st\<lparr>canvasRect := canvasRect st\<rparr>" by simp
  ultimately show ?thesis
    using updateCanvasRect_form [of st] by (metis)
qed

lemma draw_fields [simp]:
  "offscreenCanvas (draw cmds st) = offscreenCanvas st"
  "annotationElements (draw cmds st) = annotationElements st"
  "activeTools (draw cmds st) = activeTools st"
  "cropStart (draw cmds st) = cropStart st"
  "cropEnd (draw cmds st) = cropEnd st"
  "annotateStart (draw cmds st) = annotateStart st"
  "isDrawing (draw cmds st) = isDrawing st"
  "inThrottle (draw cmds st) = inThrottle st"
  "timeoutId (draw cmds st) = timeoutId st"
  by (simp_all add: draw_def split: option.splits)

lemma redrawCanvas_timeoutId [simp]: "timeoutId (redrawCanvas st) = timeoutId st"
  by (simp add: redrawCanvas_def split: option.splits)

lemma drawCropGuides_fields [simp]:
  "cropEnd (drawCropGuides x y w h st) = cropEnd st"
  "cropStart (drawCropGuides x y w h st) = cropStart st"
  "annotationElements (drawCropGuides x y w h st) = annotationElements st"
  "offscreenCanvas (drawCropGuides x y w h st) = offscreenCanvas st"
  "inThrottle (drawCropGuides x y w h st) = inThrottle st"
  "timeoutId (drawCropGuides x y w h st) = timeoutId st"
  by (simp_all add: drawCropGuides_def Let_def split: option.splits)

lemma drawCropGuides_canvas_cong:
  assumes "canvas a = canvas b" "offscreenCanvas a = offscreenCanvas b"
    and "annotationElements a = annotationElements b"
  shows "canvas (drawCropGuides x y w h a) = canvas (drawCropGuides x y w h b)"
  using assms
  by (simp add: drawCropGuides_def draw_def redrawCanvas_def Let_def split: option.splits)

text \<open>
  Claim C5, as amended.  A pointer move during a crop drag always records the new
  selection end.  It redraws the crop guides, for the rectangle from the anchor to the
  new position, exactly when the throttle flag is clear, and then sets the flag until
  the timer callback clears it.  A move that finds the flag set draws nothing and
  schedules nothing: the canvas stays as it was.
\<close>

theorem handleMouseMove_throttle:
  assumes "isDrawing st" and "isToolActive Crop st" and "cropStart st = Some cs"
    and "getMousePos e st = (Some pos, st1)"
  shows "cropEnd (handleMouseMove e st) = Some pos
     \<and> (inThrottle st \<longrightarrow>
           canvas (handleMouseMove e st) = canvas st \<and> inThrottle (handleMouseMove e st))
     \<and> (\<not> inThrottle st \<longrightarrow>
           canvas (handleMouseMove e st)
             = canvas (drawCropGuides (min (pt_x cs) (pt_x pos)) (min (pt_y cs) (pt_y pos))
                         \<bar>pt_x pos - pt_x cs\<bar> \<bar>pt_y pos - pt_y cs\<bar> st)
         \<and> inThrottle (handleMouseMove e st)
         \<and> \<not> inThrottle (throttleTimeout (handleMouseMove e st)))"
proof -
  from getMousePos_state [OF assms(4)] obtain r where st1: "st1 = st\<lparr>canvasRect := r\<rparr>" by blast
  let ?st2 = "st1\<lparr>cropEnd := Some pos\<rparr>"
  have move: "handleMouseMove e st = throttledDrawCropGuides cs pos ?st2"
    using assms by (simp add: handleMouseMove_def st1 isToolActive_def)
  have body: "cropGuidesBody (cs, pos) ?st2
      = drawCropGuides (min (pt_x cs) (pt_x pos)) (min (pt_y cs) (pt_y pos))
          \<bar>pt_x pos - pt_x cs\<bar> \<bar>pt_y pos - pt_y cs\<bar> ?st2"
    using assms by (simp add: cropGuidesBody_def st1 isToolActive_def Let_def)
  have cong: "canvas (drawCropGuides x y w h ?st2) = canvas (drawCropGuides x y w h st)" for x y w h
    by (rule drawCropGuides_canvas_cong) (simp_all add: st1)
  show ?thesis
    by (simp add: move throttledDrawCropGuides_def throttle_def body cong throttleTimeout_def)
       (simp add: st1)
qed

lemma dragScenario_fields:
  "isDrawing dragScenario" "isToolActive Crop dragScenario"
  "cropStart dragScenario = Some \<lparr>pt_x = 100, pt_y = 100\<rparr>"
  "\<not> inThrottle dragScenario"
  "canvas dragScenario = Some \<lparr>cv_width = 800, cv_height = 600, cv_content = []\<rparr>"
  "annotationElements dragScenario = []"
  "offscreenCanvas dragScenario = Some (drawImageRegion (sampleImage False) 0 0 800 600)"
  by (simp_all add: dragScenario_def cropScenario_def isToolActive_def)

lemma dragScenario_pos:
  "getMousePos (moveTo x y) dragScenario
     = (Some \<lparr>pt_x = max 0 (min x 800), pt_y = max 0 (min y 600)\<rparr>,
        dragScenario\<lparr>canvasRect := Some \<lparr>r_left = 0, r_top = 0, r_width = 800, r_height = 600\<rparr>\<rparr>)"
  by (simp add: getMousePos_def updateCanvasRect_def dragScenario_def cropScenario_def moveTo_def Let_def)

lemma getMousePos_cached:
  assumes "canvasRect st = Some \<lparr>r_left = 0, r_top = 0, r_width = 800, r_height = 600\<rparr>"
    and "canvas st = Some c" "cv_width c = 800" "cv_height c = 600"
  shows "getMousePos (moveTo x y) st = (Some \<lparr>pt_x = max 0 (min x 800), pt_y = max 0 (min y 600)\<rparr>, st)"
  using assms by (simp add: getMousePos_def moveTo_def Let_def)

lemma first_move:
  "handleMouseMove (moveTo 200 200) dragScenario
     = (drawCropGuides 100 100 100 100
          (dragScenario\<lparr>canvasRect := Some \<lparr>r_left = 0, r_top = 0, r_width = 800, r_height = 600\<rparr>,
                         cropEnd := Some \<lparr>pt_x = 200, pt_y = 200\<rparr>\<rparr>))
       \<lparr>inThrottle := True, timeoutId := True\<rparr>"
  by (simp add: handleMouseMove_def getMousePos_def updateCanvasRect_def moveTo_def
        dragScenario_def cropScenario_def isToolActive_def
        throttledDrawCropGuides_def throttle_def cropGuidesBody_def Let_def)

lemma first_move_fields:
  "isDrawing (handleMouseMove (moveTo 200 200) dragScenario)"
  "isToolActive Crop (handleMouseMove (moveTo 200 200) dragScenario)"
  "cropStart (handleMouseMove (moveTo 200 200) dragScenario) = Some \<lparr>pt_x = 100, pt_y = 100\<rparr>"
  "inThrottle (handleMouseMove (moveTo 200 200) dragScenario)"
  "canvasRect (handleMouseMove (moveTo 200 200) dragScenario)
     = Some \<lparr>r_left = 0, r_top = 0, r_width = 800, r_height = 600\<rparr>"
  "map_option cv_width (canvas (handleMouseMove (moveTo 200 200) dragScenario)) = Some 800"
  "map_option cv_height (canvas (handleMouseMove (moveTo 200 200) dragScenario)) = Some 600"
  by (simp_all add: first_move isToolActive_def)
     (simp_all add: drawCropGuides_def draw_def redrawCanvas_def Let_def
        dragScenario_def cropScenario_def)

lemma first_move_pos:
  "getMousePos (moveTo 300 250) (handleMouseMove (moveTo 200 200) dragScenario)
     = (Some \<lparr>pt_x = 300, pt_y = 250\<rparr>, handleMouseMove (moveTo 200 200) dragScenario)"
proof -
  from first_move_fields(6,7) obtain c where
    c: "canvas (handleMouseMove (moveTo 200 200) dragScenario) = Some c"
       "cv_width c = 800" "cv_height c = 600"
    by (cases "canvas (handleMouseMove (moveTo 200 200) dragScenario)") auto
  show ?thesis
    using getMousePos_cached [OF first_move_fields(5) c, of 300 250] by simp
qed

lemma second_move:
  "handleMouseMove (moveTo 300 250) (handleMouseMove (moveTo 200 200) dragScenario)
     = (handleMouseMove (moveTo 200 200) dragScenario)\<lparr>cropEnd := Some \<lparr>pt_x = 300, pt_y = 250\<rparr>\<rparr>"
  by (simp add: handleMouseMove_def [of _ "handleMouseMove (moveTo 200 200) dragScenario"]
        first_move_pos first_move_fields throttledDrawCropGuides_def throttle_def)

lemma guides_content:
  "map_option cv_content (canvas (drawCropGuides x y w h dragScenario))
     = Some (DrawImage (drawImageRegion (sampleImage False) 0 0 800 600)
             # guideCmds 800 600 (max 0 (min x 800)) (max 0 (min y 600))
                 (max 0 (min w (800 - max 0 (min x 800)))) (max 0 (min h (600 - max 0 (min y 600)))))"
  by (simp add: drawCropGuides_def draw_def redrawCanvas_def Let_def dragScenario_def cropScenario_def)

text \<open>
  A burst of two moves, to (200, 200) and then to (300, 250), with no timer expiry in
  between: the selection ends at (300, 250), but the canvas shows the guides of the first
  move, which differ from the guides of the last position.
\<close>

theorem last_move_of_burst_not_drawn:
  "cropEnd (handleMouseMove (moveTo 300 250) (handleMouseMove (moveTo 200 200) dragScenario))
     = Some \<lparr>pt_x = 300, pt_y = 250\<rparr>
   \<and> canvas (handleMouseMove (moveTo 300 250) (handleMouseMove (moveTo 200 200) dragScenario))
     = canvas (drawCropGuides 100 100 100 100 dragScenario)
   \<and> canvas (drawCropGuides 100 100 100 100 dragScenario)
     \<noteq> canvas (drawCropGuides 100 100 200 150 dragScenario)"
proof -
  have a: "canvas (handleMouseMove (moveTo 200 200) dragScenario)
             = canvas (drawCropGuides 100 100 100 100 dragScenario)"
    by (simp add: first_move)
       (rule drawCropGuides_canvas_cong, simp_all)
  have "map_option cv_content (canvas (drawCropGuides 100 100 100 100 dragScenario))
     \<noteq> map_option cv_content (canvas (drawCropGuides 100 100 200 150 dragScenario))"
    by (simp add: guides_content guideCmds_def)
  then have b: "canvas (drawCropGuides 100 100 100 100 dragScenario)
     \<noteq> canvas (drawCropGuides 100 100 200 150 dragScenario)"
    by metis
  show ?thesis by (simp add: second_move a b)
qed

theorem handleMouseMove_throttle_witness:
  "cropEnd (handleMouseMove (moveTo 200 200) dragScenario) = Some \<lparr>pt_x = 200, pt_y = 200\<rparr>
   \<and> canvas (handleMouseMove (moveTo 200 200) dragScenario)
       = canvas (drawCropGuides 100 100 100 100 dragScenario)
   \<and> inThrottle (handleMouseMove (moveTo 200 200) dragScenario)
   \<and> \<not> inThrottle (throttleTimeout (handleMouseMove (moveTo 200 200) dragScenario))
   \<and> canvas (handleMouseMove (moveTo 300 250) (handleMouseMove (moveTo 200 200) dragScenario))
       = canvas (handleMouseMove (moveTo 200 200) dragScenario)"
  using handleMouseMove_throttle [OF dragScenario_fields(1-3) dragScenario_pos, of 200 200]
    handleMouseMove_throttle [OF first_move_fields(1-3) first_move_pos]
  by (simp add: dragScenario_fields first_move_fields)

subsection \<open>Annotate gesture\<close>

lemma digitsValue_digits: "digitsValue (digits n) = n"
proof (induction n rule: digits.induct)
  case (1 n)
  show ?case
  proof (cases "n < 10")
    case True
    then show ?thesis by (simp add: digits.simps [of n] digitsValue_def)
  next
    case False
    have m: "(48 + n mod 10) mod 256 = 48 + n mod 10"
      by (rule mod_less) (simp add: less_le_trans [OF add_strict_left_mono [OF mod_less_divisor [of 10 n]]])
    from False 1 have "digitsValue (digits (n div 10)) = n div 10" by simp
    with False show ?thesis
      by (simp add: digits.simps [of n] digitsValue_def m)
  qed
qed

lemma annotationId_inj: "annotationId t = annotationId u \<Longrightarrow> t = u"
proof -
  assume "annotationId t = annotationId u"
  then have "digits t = digits u" by (simp add: annotationId_def)
  then have "digitsValue (digits t) = digitsValue (digits u)" by simp
  then show "t = u" by (simp add: digitsValue_digits)
qed

lemma handleMouseDown_annotate:
  assumes "button e = 0" and "\<not> isToolActive Crop st" and "isToolActive Annotate st"
    and "getMousePos e st = (Some pos, st1)"
    and "canvas st = Some c" and "cv_width c \<noteq> 0" and "cv_height c \<noteq> 0"
  shows "handleMouseDown e st
           = st1\<lparr>isDrawing := True, annotateStart := Some pos,
                 lastImageData := Some \<lparr>id_width = cv_width c, id_height = cv_height c,
                                         id_content = cv_content c\<rparr>\<rparr>"
proof -
  from getMousePos_state [OF assms(4)] obtain r where st1: "st1 = st\<lparr>canvasRect := r\<rparr>" by blast
  show ?thesis
    using assms(1-3,5-7)
    by (simp add: handleMouseDown_def assms(4) Let_def saveCanvasState_def isToolActive_def st1)
qed

lemma handleMouseUp_annotate_result:
  assumes "button e = 0" and "isDrawing st"
    and "\<not> (isToolActive Crop st \<and> cropStart st \<noteq> None)" and "isToolActive Annotate st"
    and "annotateStart st = Some a" and "getMousePos e st = (Some pos, st1)"
  shows "handleMouseUp now e st =
     (if 1 < \<bar>pt_x pos - pt_x a\<bar> \<and> 1 < \<bar>pt_y pos - pt_y a\<bar>
      then redrawCanvas (st1\<lparr>isDrawing := False,
             annotationElements := annotationElements st @
               [\<lparr>el_type = ''rect'', el_id = annotationId now,
                 el_x = min (pt_x a) (pt_x pos), el_y = min (pt_y a) (pt_y pos),
                 el_width = \<bar>pt_x pos - pt_x a\<bar>, el_height = \<bar>pt_y pos - pt_y a\<bar>,
                 el_color = ''#000000''\<rparr>]\<rparr>)
      else restoreCanvasState (st1\<lparr>isDrawing := False\<rparr>))\<lparr>annotateStart := None\<rparr>"
proof -
  from getMousePos_state [OF assms(6)] obtain r where st1: "st1 = st\<lparr>canvasRect := r\<rparr>" by blast
  show ?thesis
    using assms(1-5)
    by (auto simp: handleMouseUp_def assms(6) Let_def isToolActive_def st1)
qed

text \<open>
  Claim C6, as amended.  On pointer-up of an annotate drag one element is appended, with
  identifier \<open>anno-\<close> followed by the clock reading, exactly when the dragged rectangle
  exceeds 1 pixel in both axes; the identifier is new among the elements when no element
  carries the identifier of the same clock reading, and different clock readings give
  different identifiers.  Otherwise no element is added and the visible canvas is put
  back to the snapshot taken at pointer-down (lemma \<open>handleMouseDown_annotate\<close>).
\<close>

theorem handleMouseUp_annotate:
  assumes "button e = 0" and "isDrawing st"
    and "\<not> (isToolActive Crop st \<and> cropStart st \<noteq> None)" and "isToolActive Annotate st"
    and "annotateStart st = Some a" and "getMousePos e st = (Some pos, st1)"
    and "w = \<bar>pt_x pos - pt_x a\<bar>" and "h = \<bar>pt_y pos - pt_y a\<bar>"
  shows "(1 < w \<and> 1 < h \<longrightarrow>
            annotationElements (handleMouseUp now e st)
              = annotationElements st @
                  [\<lparr>el_type = ''rect'', el_id = annotationId now,
                    el_x = min (pt_x a) (pt_x pos), el_y = min (pt_y a) (pt_y pos),
                    el_width = w, el_height = h, el_color = ''#000000''\<rparr>]
          \<and> (distinct (map el_id (annotationElements st))
               \<and> annotationId now \<notin> el_id ` set (annotationElements st)
               \<longrightarrow> distinct (map el_id (annotationElements (handleMouseUp now e st)))))
       \<and> (\<not> (1 < w \<and> 1 < h) \<longrightarrow>
            annotationElements (handleMouseUp now e st) = annotationElements st
          \<and> (\<forall>c d. canvas st = Some c \<and> lastImageData st = Some d
                 \<and> id_width d = cv_width c \<and> id_height d = cv_height c
               \<longrightarrow> canvas (handleMouseUp now e st) = Some (c\<lparr>cv_content := id_content d\<rparr>)))
       \<and> (\<forall>t. annotationId t = annotationId now \<longrightarrow> t = now)"
proof -
  from getMousePos_state [OF assms(6)] obtain r where st1: "st1 = st\<lparr>canvasRect := r\<rparr>" by blast
  note res = handleMouseUp_annotate_result [OF assms(1-6), of now]
  have big: "1 < w \<and> 1 < h \<Longrightarrow>
      annotationElements (handleMouseUp now e st)
        = annotationElements st @
            [\<lparr>el_type = ''rect'', el_id = annotationId now,
              el_x = min (pt_x a) (pt_x pos), el_y = min (pt_y a) (pt_y pos),
              el_width = w, el_height = h, el_color = ''#000000''\<rparr>]"
    by (simp add: res assms(7,8) st1)
  have small: "\<not> (1 < w \<and> 1 < h) \<Longrightarrow>
      handleMouseUp now e st = (restoreCanvasState (st1\<lparr>isDrawing := False\<rparr>))\<lparr>annotateStart := None\<rparr>"
    using res by (simp only: assms(7,8) if_False)
  have small_els: "\<not> (1 < w \<and> 1 < h) \<Longrightarrow>
      annotationElements (handleMouseUp now e st) = annotationElements st"
    by (simp add: small restoreCanvasState_def st1 split: option.splits)
  have small_canvas: "\<not> (1 < w \<and> 1 < h) \<Longrightarrow> canvas st = Some c \<Longrightarrow> lastImageData st = Some d
      \<Longrightarrow> id_width d = cv_width c \<Longrightarrow> id_height d = cv_height c
      \<Longrightarrow> canvas (handleMouseUp now e st) = Some (c\<lparr>cv_content := id_content d\<rparr>)" for c d
    by (simp add: small restoreCanvasState_def putImageData_def st1)
  show ?thesis
    using big small_els small_canvas annotationId_inj
    by (intro conjI impI allI) auto
qed

lemma annotateScenario_fields:
  "\<not> isToolActive Crop (annotateScenario els)" "isToolActive Annotate (annotateScenario els)"
  "canvas (annotateScenario els)
     = Some \<lparr>cv_width = 800, cv_height = 600,
             cv_content = DrawImage (drawImageRegion (sampleImage False) 0 0 800 600)
                          # map elementFill (filter (\<lambda>e. el_type e = ''rect'') els)\<rparr>"
  "canvasRect (annotateScenario els) = Some \<lparr>r_left = 0, r_top = 0, r_width = 800, r_height = 600\<rparr>"
  "annotationElements (annotateScenario els) = els"
  "cropStart (annotateScenario els) = None"
  by (simp_all add: annotateScenario_def redrawCanvas_def cropScenario_def isToolActive_def)

lemmas handler_defs = handleMouseDown_def handleMouseMove_def animationFrame_def getMousePos_def
  updateCanvasRect_def saveCanvasState_def restoreCanvasState_def putImageData_def draw_def
  redrawCanvas_def moveTo_def isToolActive_def Let_def

lemma previewState_fields:
  "isDrawing previewState"
  "isToolActive Annotate previewState"
  "\<not> isToolActive Crop previewState"
  "annotateStart previewState = Some \<lparr>pt_x = 10, pt_y = 10\<rparr>"
  "annotationElements previewState = []"
  "canvas previewState
     = Some \<lparr>cv_width = 800, cv_height = 600,
             cv_content = [DrawImage (drawImageRegion (sampleImage False) 0 0 800 600),
                           FillRect ''#000000'' 10 10 20 20]\<rparr>"
  "lastImageData previewState
     = Some \<lparr>id_width = 800, id_height = 600,
             id_content = [DrawImage (drawImageRegion (sampleImage False) 0 0 800 600)]\<rparr>"
  "getMousePos (moveTo 11 11) previewState = (Some \<lparr>pt_x = 11, pt_y = 11\<rparr>, previewState)"
  by (simp_all add: previewState_def annotateScenario_def cropScenario_def handler_defs)

lemma twoDrags_elements:
  "annotationElements (twoDrags t1 t2)
     = [rectElement (annotationId t1) 10 10 40 30, rectElement (annotationId t2) 100 100 30 50]"
  by (simp add: twoDrags_def annotateScenario_def cropScenario_def handler_defs handleMouseUp_def
        rectElement_def)

theorem handleMouseUp_annotate_witness:
  "annotationElements (handleMouseUp 1700000000000 (moveTo 11 11) previewState) = []
   \<and> canvas (handleMouseUp 1700000000000 (moveTo 11 11) previewState) = canvas (annotateScenario [])
   \<and> annotationElements (handleMouseUp 1700000000000 (moveTo 30 20) previewState)
       = [rectElement (annotationId 1700000000000) 10 10 20 10]"
proof -
  have p: "getMousePos (moveTo 30 20) previewState = (Some \<lparr>pt_x = 30, pt_y = 20\<rparr>, previewState)"
    by (simp add: previewState_def annotateScenario_def cropScenario_def handler_defs)
  have b: "button (moveTo x y) = 0" for x y by (simp add: moveTo_def)
  have n: "\<not> (isToolActive Crop previewState \<and> cropStart previewState \<noteq> None)"
    by (simp add: previewState_fields)
  show ?thesis
    using handleMouseUp_annotate [OF b previewState_fields(1) n previewState_fields(2,4,8) refl refl,
            of 1700000000000]
      handleMouseUp_annotate [OF b previewState_fields(1) n previewState_fields(2,4) p refl refl,
            of 1700000000000]
    by (simp add: previewState_fields annotateScenario_fields rectElement_def)
qed

text \<open>
  Two annotate drags committed at the same clock reading yield two elements with the
  same identifier.
\<close>

theorem same_clock_same_identifier:
  "map el_id (annotationElements (twoDrags 1700000000000 1700000000000))
     = [annotationId 1700000000000, annotationId 1700000000000]
   \<and> \<not> distinct (map el_id (annotationElements (twoDrags 1700000000000 1700000000000)))"
  by (simp add: twoDrags_elements rectElement_def)

end
